theory Spec2Isabelle
  imports Complex_Main "HOL-Library.Sublist"
begin

section \<open>Drone Fly Simulator: the flight emulation core\<close>

text \<open>
  A shallow embedding of \<^verbatim>\<open>client/static/drone_sender.js\<close> (the flight emulation
  module) and of the reset handler of \<^verbatim>\<open>client/static/ui.js\<close>.

  JavaScript numbers are modelled as real numbers: \<^verbatim>\<open>Math.sin\<close>, \<^verbatim>\<open>Math.cos\<close>,
  \<^verbatim>\<open>Math.sqrt\<close>, \<^verbatim>\<open>Math.exp\<close> and \<^verbatim>\<open>Math.PI\<close> are \<open>sin\<close>, \<open>cos\<close>, \<open>sqrt\<close>,
  \<open>exp\<close> and \<open>pi\<close>; rounding is not modelled. A division whose divisor can be zero is
  guarded in the model and reported as an error value, because its IEEE result
  (an infinity or NaN) is no real number.
\<close>

subsection \<open>Geodesy\<close>

record point =
  lat :: real
  lng :: real

text \<open>\<^verbatim>\<open>Math.atan2(y, x)\<close>, the angle of the vector \<open>(x, y)\<close> in \<open>(-pi, pi]\<close>.\<close>

definition atan2 :: "real \<Rightarrow> real \<Rightarrow> real" where
  "atan2 y x =
     (if 0 < x then arctan (y / x)
      else if x < 0 then (if 0 \<le> y then arctan (y / x) + pi else arctan (y / x) - pi)
      else if 0 < y then pi / 2
      else if y < 0 then - (pi / 2)
      else 0)"

definition haversine :: "point \<Rightarrow> point \<Rightarrow> real" where
  "haversine a b =
     (let dLat = (lat b - lat a) * pi / 180;
          dLon = (lng b - lng a) * pi / 180;
          lat1 = lat a * pi / 180;
          lat2 = lat b * pi / 180
      in (sin (dLat / 2))\<^sup>2 + cos lat1 * cos lat2 * (sin (dLon / 2))\<^sup>2)"

text \<open>\<^verbatim>\<open>computeDistance(a, b)\<close>: the constant \<open>A\<close> of the source is \<open>haversine a b\<close>.\<close>

definition computeDistance :: "point \<Rightarrow> point \<Rightarrow> real" where
  "computeDistance a b =
     (let R = 6371000; A = haversine a b
      in R * 2 * atan2 (sqrt A) (sqrt (1 - A)))"

subsection \<open>Route filtering\<close>

text \<open>
  A route is an array of references to point objects. The filter reads the coordinates
  of an element through \<open>coords\<close> (the object the reference denotes) and keeps or drops the
  reference itself. The loop variable \<open>filtered\<close> is the accumulator.
\<close>

fun filterRoute_loop :: "('a \<Rightarrow> point) \<Rightarrow> 'a list \<Rightarrow> 'a list \<Rightarrow> 'a list" where
  "filterRoute_loop coords filtered [] = filtered"
| "filterRoute_loop coords filtered (pt # rest) =
     filterRoute_loop coords
       (if filtered = [] \<or> computeDistance (coords pt) (coords (last filtered)) > 5
        then filtered @ [pt] else filtered)
       rest"

definition filterRoute :: "('a \<Rightarrow> point) \<Rightarrow> 'a list \<Rightarrow> 'a list" where
  "filterRoute coords route = filterRoute_loop coords [] route"

text \<open>The test of the loop, between the last point kept and the point pushed after it.\<close>

definition kept :: "('a \<Rightarrow> point) \<Rightarrow> 'a \<Rightarrow> 'a \<Rightarrow> bool" where
  "kept coords a b \<longleftrightarrow> computeDistance (coords b) (coords a) > 5"

subsection \<open>The vehicle state\<close>

text \<open>
  An element of \<^verbatim>\<open>state.route\<close> is a reference to a point object. The repeat-mission
  branch of the tick stores the object \<^verbatim>\<open>state.position\<close> itself in the route, and the
  tick updates that object in place, so such an element follows the vehicle:
  \<open>StatePosition\<close> is that reference, \<open>Obj p\<close> a reference to any other object, whose
  coordinates nothing changes.
\<close>

datatype waypointRef = Obj point | StatePosition

fun deref :: "point \<Rightarrow> waypointRef \<Rightarrow> point" where
  "deref pos (Obj p) = p"
| "deref pos StatePosition = pos"

text \<open>
  When \<^verbatim>\<open>state.position\<close> is assigned a fresh object, the old object stays in the route
  with the coordinates it had.
\<close>

fun detach :: "point \<Rightarrow> waypointRef \<Rightarrow> waypointRef" where
  "detach pos (Obj p) = Obj p"
| "detach pos StatePosition = Obj pos"

record windInfo =
  speed :: real
  direction :: real

record jamZoneInfo =
  center :: point
  radius :: real

datatype mode = OnGround | TakeOff | Cruise | Landing

text \<open>
  The object \<^verbatim>\<open>state\<close> of the source, followed by the field \<open>desiredSpeed\<close> that the tick
  adds to it, and by the two variables of the altitude controller that live beside it in
  the module (\<^verbatim>\<open>altErrorIntegral\<close>, \<^verbatim>\<open>lastAltError\<close>).
\<close>

record state =
  position :: point
  altitude :: real
  targetAltitude :: real
  verticalSpeed :: real
  homePosition :: "point option"
  flightStarted :: bool
  route :: "waypointRef list"
  waypointIndex :: nat
  vx :: real
  vy :: real
  horizontalSpeed :: real
  timeMultiplier :: real
  fullFlightTime :: real
  altStability :: real
  hoverMode :: bool
  repeatMission :: bool
  wind :: windInfo
  engineRPM :: real
  batteryLevel :: real
  batteryTemperature :: real
  flightTime :: real
  totalDistance :: real
  mode :: mode
  cruiseAltitude :: real
  jamZone :: "jamZoneInfo option"
  gpsQuality :: real
  crashed :: bool
  desiredSpeed :: "real option"
  altErrorIntegral :: real
  lastAltError :: real

definition initialState :: state where
  "initialState =
     \<lparr> position = \<lparr> lat = 55.7522, lng = 37.6156 \<rparr>,
       altitude = 0,
       targetAltitude = 0,
       verticalSpeed = 0,
       homePosition = None,
       flightStarted = False,
       route = [],
       waypointIndex = 0,
       vx = 0,
       vy = 0,
       horizontalSpeed = 50 / 3.6,
       timeMultiplier = 100,
       fullFlightTime = 30,
       altStability = 1,
       hoverMode = False,
       repeatMission = False,
       wind = \<lparr> speed = 0, direction = 0 \<rparr>,
       engineRPM = 2000,
       batteryLevel = 100,
       batteryTemperature = 30,
       flightTime = 0,
       totalDistance = 0,
       mode = OnGround,
       cruiseAltitude = 100,
       jamZone = None,
       gpsQuality = 1,
       crashed = False,
       desiredSpeed = None,
       altErrorIntegral = 0,
       lastAltError = 0 \<rparr>"

definition maxAcceleration :: real where "maxAcceleration = 5"
definition minSpeed :: real where "minSpeed = 0.5"
definition maxIntegral :: real where "maxIntegral = 10"
definition Kp_alt :: real where "Kp_alt = 0.4"
definition Ki_alt :: real where "Ki_alt = 0.05"
definition Kd_alt :: real where "Kd_alt = 0.15"

definition clamp :: "real \<Rightarrow> real \<Rightarrow> real \<Rightarrow> real" where
  "clamp v lo hi = max lo (min hi v)"

text \<open>
  The values \<^verbatim>\<open>Math.random()\<close> returns during one tick, in the order of the calls:
  the turbulence of the altitude controller, the seven perturbations inside a jam zone,
  the random walk of the GPS quality without a jam zone. Each lies in \<open>[0, 1)\<close>.
\<close>

record draws =
  rTurbulence :: real
  rJamVx :: real
  rJamVy :: real
  rJamVerticalSpeed :: real
  rJamAltitude :: real
  rJamLat :: real
  rJamLng :: real
  rJamRPM :: real
  rGps :: real

definition unitDraws :: "draws \<Rightarrow> bool" where
  "unitDraws rnd \<longleftrightarrow>
     list_all (\<lambda>r. 0 \<le> r \<and> r < 1)
       [rTurbulence rnd, rJamVx rnd, rJamVy rnd, rJamVerticalSpeed rnd, rJamAltitude rnd,
        rJamLat rnd, rJamLng rnd, rJamRPM rnd, rGps rnd]"

text \<open>
  \<open>TypeError\<close>: the tick reads \<^verbatim>\<open>state.route[state.waypointIndex]\<close> beyond the end of
  the route and \<^verbatim>\<open>computeDistance\<close> throws on \<^verbatim>\<open>undefined\<close>.
  \<open>DivisionByZero\<close>: a divisor is zero, the result is an infinity or NaN.
\<close>

datatype error = TypeError | DivisionByZero

subsection \<open>Horizontal navigation\<close>

definition getVirtualTarget :: "point \<Rightarrow> point \<Rightarrow> real \<Rightarrow> real \<Rightarrow> point" where
  "getVirtualTarget currentPos waypoint brakingDistance safetyMargin =
     (let d = computeDistance currentPos waypoint
      in if d > brakingDistance + safetyMargin
         then (let ratio = (d - brakingDistance - safetyMargin) / d
               in \<lparr> lat = lat waypoint + (lat currentPos - lat waypoint) * ratio,
                    lng = lng waypoint + (lng currentPos - lng waypoint) * ratio \<rparr>)
         else waypoint)"

text \<open>
  The desired speed of the braking branch, from the base speed and the distance to the
  virtual target (the \<^verbatim>\<open>if\<close> on \<^verbatim>\<open>distanceToVirtual\<close> and the \<^verbatim>\<open>Math.max\<close> after it).
\<close>

definition brakedSpeed :: "real \<Rightarrow> real \<Rightarrow> real" where
  "brakedSpeed baseSpeed distanceToVirtual =
     (let maxDeceleration = 2;
          brakingDistance = baseSpeed\<^sup>2 / (2 * maxDeceleration);
          safetyMargin = 10;
          desiredSpeed =
            (if distanceToVirtual < brakingDistance + safetyMargin
             then baseSpeed * (distanceToVirtual / (brakingDistance + safetyMargin))
             else baseSpeed)
      in max minSpeed desiredSpeed)"

text \<open>
  The desired speed of the tick, from the base speed, the position, the target waypoint
  and the distance \<open>d\<close> to it that the tick holds at that point.
\<close>

definition computeDesiredSpeed :: "real \<Rightarrow> point \<Rightarrow> point \<Rightarrow> real \<Rightarrow> real" where
  "computeDesiredSpeed baseSpeed currentPos targetWaypoint d =
     (if d \<ge> 10
      then (let maxDeceleration = 2;
                brakingDistance = baseSpeed\<^sup>2 / (2 * maxDeceleration);
                safetyMargin = 10;
                virtualTarget = getVirtualTarget currentPos targetWaypoint brakingDistance safetyMargin;
                distanceToVirtual = computeDistance currentPos virtualTarget
            in brakedSpeed baseSpeed distanceToVirtual)
      else baseSpeed)"

text \<open>
  The end of both branches of the horizontal movement: the acceleration towards the
  desired velocity, limited to \<open>maxAcceleration\<close>, then the wind and the position.
  The longitude is divided by the cosine of the new latitude.
\<close>

definition steer :: "real \<Rightarrow> real \<Rightarrow> real \<Rightarrow> state \<Rightarrow> error + state" where
  "steer dt desiredVx desiredVy s =
     (let ax = desiredVx - vx s;
          ay = desiredVy - vy s;
          aMag = sqrt (ax * ax + ay * ay);
          ax' = (if aMag > maxAcceleration then ax * (maxAcceleration / aMag) else ax);
          ay' = (if aMag > maxAcceleration then ay * (maxAcceleration / aMag) else ay);
          vx' = vx s + ax' * dt;
          vy' = vy s + ay' * dt;
          windSpeedMs = speed (wind s) / 3.6;
          windRad = direction (wind s) * pi / 180;
          windVx = cos windRad * windSpeedMs;
          windVy = sin windRad * windSpeedMs;
          totalVx = vx' + windVx;
          totalVy = vy' + windVy;
          lat' = lat (position s) + (totalVy * dt) / 111320;
          c = cos (lat' * pi / 180)
      in if c = 0 then Inl DivisionByZero
         else Inr (s\<lparr> vx := vx', vy := vy',
                       position := \<lparr> lat = lat',
                                      lng = lng (position s) + (totalVx * dt) / (111320 * c) \<rparr> \<rparr>))"

text \<open>
  The waypoint has been reached (\<open>d < 10\<close>): the index advances; the result is the new
  state with the target waypoint and the distance the tick goes on with.
\<close>

definition advanceWaypoint :: "state \<Rightarrow> point \<Rightarrow> real \<Rightarrow> state \<times> point \<times> real" where
  "advanceWaypoint s targetWaypoint d =
     (let currentPos = position s;
          s1 = s\<lparr> waypointIndex := waypointIndex s + 1 \<rparr>
      in if waypointIndex s1 \<ge> length (route s1)
         then (if repeatMission s1 \<and> length (route s1) > 1
               then (s1\<lparr> route := (case homePosition s1 of
                                      Some home \<Rightarrow> [StatePosition, Obj home]
                                    | None \<Rightarrow> [StatePosition, route s1 ! 0]),
                         waypointIndex := 1 \<rparr>,
                     targetWaypoint, d)
               else (let targetWaypoint' = deref currentPos (last (route s1))
                     in (s1\<lparr> mode := Landing, targetAltitude := 0 \<rparr>,
                         targetWaypoint', computeDistance currentPos targetWaypoint')))
         else (let targetWaypoint' = deref currentPos (route s1 ! waypointIndex s1)
               in (s1, targetWaypoint', computeDistance currentPos targetWaypoint')))"

definition navigate :: "real \<Rightarrow> state \<Rightarrow> error + state" where
  "navigate dt s =
     (if waypointIndex s \<ge> length (route s) then Inl TypeError
      else
        (let currentPos = position s;
             targetWaypoint = deref currentPos (route s ! waypointIndex s);
             d = computeDistance currentPos targetWaypoint;
             (s1, targetWaypoint1, d1) =
               (if d < 10 then advanceWaypoint s targetWaypoint d else (s, targetWaypoint, d));
             baseSpeed = horizontalSpeed s1;
             desiredSpeed' = computeDesiredSpeed baseSpeed currentPos targetWaypoint1 d1;
             s2 = s1\<lparr> desiredSpeed := Some desiredSpeed' \<rparr>;
             desiredBearing = atan2 (lat targetWaypoint1 - lat currentPos)
                                    (lng targetWaypoint1 - lng currentPos);
             desiredVx = cos desiredBearing * desiredSpeed';
             desiredVy = sin desiredBearing * desiredSpeed'
         in steer dt desiredVx desiredVy s2))"

definition landingApproach :: "real \<Rightarrow> state \<Rightarrow> error + state" where
  "landingApproach dt s =
     (let currentPos = position s;
          targetWaypoint = deref currentPos (last (route s));
          desiredBearing = atan2 (lat targetWaypoint - lat currentPos)
                                 (lng targetWaypoint - lng currentPos);
          desiredVx = cos desiredBearing * horizontalSpeed s;
          desiredVy = sin desiredBearing * horizontalSpeed s
      in steer dt desiredVx desiredVy s)"

definition horizontalMovement :: "real \<Rightarrow> state \<Rightarrow> error + state" where
  "horizontalMovement dt s =
     (if \<not> hoverMode s \<and> flightStarted s \<and> length (route s) > 0
      then (if mode s \<noteq> Landing then navigate dt s else landingApproach dt s)
      else Inr s)"

subsection \<open>Flight modes and the altitude controller\<close>

definition flightModes :: "state \<Rightarrow> state" where
  "flightModes s =
     (if mode s = TakeOff
      then (let s1 = (if altitude s < 1 then s\<lparr> targetAltitude := cruiseAltitude s \<rparr> else s)
            in if altitude s1 \<ge> cruiseAltitude s1 * 0.95
               then s1\<lparr> mode := Cruise, altErrorIntegral := 0 \<rparr>
               else s1)
      else if mode s = Landing
      then (let s1 = s\<lparr> targetAltitude := 0 \<rparr>
            in if altitude s1 \<le> 1
               then (if engineRPM s1 > 8000
                     then s1\<lparr> crashed := True \<rparr>
                     else s1\<lparr> altitude := 0, verticalSpeed := 0, mode := OnGround,
                              flightStarted := False \<rparr>)
               else s1)
      else s)"

text \<open>
  The PID controller with the turbulence, then the vertical speed and the altitude with
  its floor. The result carries \<^verbatim>\<open>verticalAccel\<close>, which the power model reads. The
  derivative divides by \<open>dt\<close>.
\<close>

definition verticalControl :: "real \<Rightarrow> draws \<Rightarrow> state \<Rightarrow> error + real \<times> state" where
  "verticalControl dt rnd s =
     (if dt = 0 then Inl DivisionByZero
      else
        (let altError = targetAltitude s - altitude s;
             integral = clamp (altErrorIntegral s + altError * dt) (- maxIntegral) maxIntegral;
             altErrorDerivative = (altError - lastAltError s) / dt;
             verticalAccel0 = Kp_alt * altError + Ki_alt * integral + Kd_alt * altErrorDerivative;
             verticalDisturbance = (rTurbulence rnd - 0.5) * 0.5 * (speed (wind s) / 10);
             verticalAccel = clamp (verticalAccel0 + verticalDisturbance) (- 3) 3;
             verticalSpeed' = 0.9 * verticalSpeed s + verticalAccel * dt;
             altitude' = altitude s + verticalSpeed' * dt;
             s1 = s\<lparr> altErrorIntegral := integral, lastAltError := altError,
                      verticalSpeed := verticalSpeed', altitude := altitude' \<rparr>
         in Inr (verticalAccel,
                 if altitude s1 < 0 then s1\<lparr> altitude := 0, verticalSpeed := 0 \<rparr> else s1)))"

subsection \<open>Jam zone\<close>

definition jamInterference :: "draws \<Rightarrow> state \<Rightarrow> state" where
  "jamInterference rnd s =
     (case jamZone s of
        Some jz \<Rightarrow>
          (let dJam = computeDistance (position s) (center jz)
           in if dJam < radius jz
              then (let expFactor = 1.5 * exp ((radius jz - dJam) / radius jz) - 1;
                        s1 = (if dJam < 0.1 * radius jz
                              then s\<lparr> crashed := True, flightStarted := False,
                                      vx := 0, vy := 0, verticalSpeed := - 5 \<rparr>
                              else s)
                    in s1\<lparr> vx := vx s1 + (rJamVx rnd - 0.5) * 1.0 * expFactor,
                           vy := vy s1 + (rJamVy rnd - 0.5) * 1.0 * expFactor,
                           verticalSpeed :=
                             verticalSpeed s1 + (rJamVerticalSpeed rnd - 0.5) * 1.0 * expFactor,
                           altitude := altitude s1 + (rJamAltitude rnd - 0.5) * 2.0 * expFactor,
                           position :=
                             \<lparr> lat = lat (position s1) + (rJamLat rnd - 0.5) * 0.001 * expFactor,
                               lng = lng (position s1) + (rJamLng rnd - 0.5) * 0.001 * expFactor \<rparr>,
                           engineRPM := engineRPM s1 + (rJamRPM rnd - 0.5) * 100 * expFactor,
                           gpsQuality := clamp (gpsQuality s1 - 0.1 * expFactor) 0.1 1 \<rparr>)
              else s\<lparr> gpsQuality := clamp (gpsQuality s + 0.005) 0 1 \<rparr>)
      | None \<Rightarrow> s\<lparr> gpsQuality := clamp (gpsQuality s + (rGps rnd - 0.5) * 0.001) 0.8 1 \<rparr>)"

subsection \<open>Engine, battery, odometer\<close>

definition totalLoad :: "real \<Rightarrow> state \<Rightarrow> real" where
  "totalLoad verticalAccel s =
     (let horizontalAccel = sqrt (vx s * vx s + vy s * vy s)
      in \<bar>verticalAccel\<bar> + horizontalAccel)"

definition powerModel :: "real \<Rightarrow> real \<Rightarrow> state \<Rightarrow> state" where
  "powerModel dt verticalAccel s =
     (let load = totalLoad verticalAccel s;
          desiredRPM = 2000 + 500 * load;
          engineRPM' = engineRPM s + (desiredRPM - engineRPM s) * 0.05;
          dischargeRate = 0.01 * load;
          batteryLevel0 = batteryLevel s - dischargeRate * dt;
          batteryLevel' = (if batteryLevel0 < 0 then 0 else batteryLevel0);
          batteryTemperature' =
            (if engineRPM' > 3000 then batteryTemperature s + 0.01 * dt * load
             else batteryTemperature s - 0.02 * dt)
      in s\<lparr> engineRPM := engineRPM', batteryLevel := batteryLevel',
             batteryTemperature := clamp batteryTemperature' 30 60 \<rparr>)"

definition odometer :: "real \<Rightarrow> point \<Rightarrow> state \<Rightarrow> state" where
  "odometer dt prevPos s =
     (let distIncrement = computeDistance prevPos (position s);
          s1 = s\<lparr> totalDistance := totalDistance s + distIncrement \<rparr>
      in if flightStarted s1 then s1\<lparr> flightTime := flightTime s1 + dt \<rparr> else s1)"

subsection \<open>The tick\<close>

text \<open>
  The state and \<^verbatim>\<open>verticalAccel\<close> after the horizontal movement, the mode switches, the
  altitude controller and the jam zone, that is, at the comment
  \<^verbatim>\<open>// Update engine model and battery consumption\<close>.
\<close>

definition flightDynamics :: "real \<Rightarrow> draws \<Rightarrow> state \<Rightarrow> error + real \<times> state" where
  "flightDynamics dt rnd s =
     (case horizontalMovement dt s of
        Inl e \<Rightarrow> Inl e
      | Inr s1 \<Rightarrow>
          (case verticalControl dt rnd (flightModes s1) of
             Inl e \<Rightarrow> Inl e
           | Inr (verticalAccel, s2) \<Rightarrow> Inr (verticalAccel, jamInterference rnd s2)))"

text \<open>
  \<^verbatim>\<open>updateFlightPhysics(dt)\<close>. The lines it writes to the console are left out.
\<close>

definition updateFlightPhysics :: "real \<Rightarrow> draws \<Rightarrow> state \<Rightarrow> error + state" where
  "updateFlightPhysics dt rnd s =
     (if crashed s then Inr s
      else
        (let prevPos = position s
         in case flightDynamics dt rnd s of
              Inl e \<Rightarrow> Inl e
            | Inr (verticalAccel, s1) \<Rightarrow> Inr (odometer dt prevPos (powerModel dt verticalAccel s1))))"

subsection \<open>Commands\<close>

text \<open>
  What a command shows to its caller besides the state: the \<^verbatim>\<open>alert\<close> dialogs and the
  console lines, each by its fixed text. No command returns a value.
\<close>

datatype event = Alert string | Log string

definition startFlight :: "state \<Rightarrow> state \<times> event list" where
  "startFlight s =
     (if length (route s) < 2 then (s, [])
      else
        (let pos = position s;
             route' = filterRoute (deref pos) (route s);
             s1 = s\<lparr> route := route' \<rparr>;
             s2 = (if \<not> flightStarted s1
                   then (let first = deref pos (hd route')
                         in s1\<lparr> position := first,
                                route := map (detach pos) route',
                                vx := 0, vy := 0,
                                waypointIndex := 1,
                                flightTime := 0,
                                totalDistance := 0,
                                homePosition :=
                                  (case homePosition s1 of None \<Rightarrow> Some first | Some home \<Rightarrow> Some home),
                                mode := TakeOff,
                                crashed := False \<rparr>)
                   else s1)
         in (s2\<lparr> altErrorIntegral := 0,
                 lastAltError := targetAltitude s2 - altitude s2,
                 flightStarted := True,
                 hoverMode := False \<rparr>,
             [Log ''Flight started, mode:''])))"

definition stopFlight :: "state \<Rightarrow> state \<times> event list" where
  "stopFlight s =
     (s\<lparr> flightStarted := False, route := [], waypointIndex := 0 \<rparr>, [Log ''Flight stopped''])"

definition setRoute :: "waypointRef list \<Rightarrow> state \<Rightarrow> state \<times> event list" where
  "setRoute newRoute s =
     (s\<lparr> route := filterRoute (deref (position s)) newRoute, waypointIndex := 0 \<rparr>,
      [Log ''Route set:''])"

definition setHome :: "state \<Rightarrow> state \<times> event list" where
  "setHome s = (s\<lparr> homePosition := Some (position s) \<rparr>, [Log ''Home set:''])"

definition takeOff :: "state \<Rightarrow> state \<times> event list" where
  "takeOff s =
     (if flightStarted s then (s, [Alert ''Drone already in flight''])
      else
        (let s1 = s\<lparr> altitude := 0, cruiseAltitude := 100, targetAltitude := 100,
                      mode := TakeOff, flightStarted := True, hoverMode := False,
                      altErrorIntegral := 0 \<rparr>
         in (s1\<lparr> lastAltError := targetAltitude s1 - altitude s1 \<rparr>,
             [Log ''Take Off initiated, mode:''])))"

definition land :: "state \<Rightarrow> state \<times> event list" where
  "land s =
     (if \<not> flightStarted s then (s, [Alert ''Drone is not in flight''])
      else (s\<lparr> mode := Landing, targetAltitude := 0, hoverMode := False \<rparr>,
            [Log ''Landing initiated, mode:'']))"

definition hover :: "state \<Rightarrow> state \<times> event list" where
  "hover s =
     (if \<not> flightStarted s then (s, [])
      else (s\<lparr> hoverMode := True \<rparr>, [Log ''Hover mode activated'']))"

text \<open>
  The argument of \<^verbatim>\<open>updateParameters\<close>: a field is \<open>Some v\<close> when it is present and
  truthy and parses to the number \<open>v\<close>. \<^verbatim>\<open>parseInt\<close> drops the fraction.
\<close>

record params =
  p_speed :: "real option"
  p_time_multiplier :: "real option"
  p_fullFlightTime :: "real option"
  p_altStability :: "real option"

definition parseInt :: "real \<Rightarrow> real" where
  "parseInt v = (if 0 \<le> v then of_int \<lfloor>v\<rfloor> else of_int \<lceil>v\<rceil>)"

definition updateParameters :: "params \<Rightarrow> state \<Rightarrow> state \<times> event list" where
  "updateParameters ps s =
     (let s1 = (case p_speed ps of Some v \<Rightarrow> s\<lparr> horizontalSpeed := v / 3.6 \<rparr> | None \<Rightarrow> s);
          s2 = (case p_time_multiplier ps of Some v \<Rightarrow> s1\<lparr> timeMultiplier := v \<rparr> | None \<Rightarrow> s1);
          s3 = (case p_fullFlightTime ps of Some v \<Rightarrow> s2\<lparr> fullFlightTime := parseInt v \<rparr> | None \<Rightarrow> s2);
          s4 = (case p_altStability ps of Some v \<Rightarrow> s3\<lparr> altStability := v \<rparr> | None \<Rightarrow> s3)
      in (s4, [Log ''Updated parameters:'']))"

text \<open>The wind speed and direction after \<^verbatim>\<open>parseFloat(...) || 0\<close>.\<close>

definition updateWind :: "real \<Rightarrow> real \<Rightarrow> state \<Rightarrow> state \<times> event list" where
  "updateWind windSpeed windDirection s =
     (s\<lparr> wind := \<lparr> speed = windSpeed, direction = windDirection \<rparr> \<rparr>, [Log ''Updated wind:''])"

definition setJamZone :: "jamZoneInfo \<Rightarrow> state \<Rightarrow> state \<times> event list" where
  "setJamZone jz s = (s\<lparr> jamZone := Some jz \<rparr>, [Log ''Jam zone set:''])"

definition clearJamZone :: "state \<Rightarrow> state \<times> event list" where
  "clearJamZone s = (s\<lparr> jamZone := None \<rparr>, [Log ''Jam zone cleared''])"

definition setRepeat :: "bool \<Rightarrow> state \<Rightarrow> state \<times> event list" where
  "setRepeat val s = (s\<lparr> repeatMission := val \<rparr>, [Log ''Repeat Mission set to:''])"

subsection \<open>The handlers of the user interface that write the state\<close>

text \<open>
  The values of the four sliders that the reset handler reads
  (speed in km/h, time multiplier, full flight time, altitude stability).
\<close>

record sliders =
  speedSlider :: real
  multiplierSlider :: real
  fullFlightTimeSlider :: real
  altStabilitySlider :: real

text \<open>The sliders as the page loads them.\<close>

definition pageSliders :: sliders where
  "pageSliders =
     \<lparr> speedSlider = 50, multiplierSlider = 10, fullFlightTimeSlider = 30,
       altStabilitySlider = 1 \<rparr>"

text \<open>\<^verbatim>\<open>resetBtn.onclick\<close>, without the map layers and the command log of the page.\<close>

definition resetBtn_onclick :: "sliders \<Rightarrow> state \<Rightarrow> state" where
  "resetBtn_onclick sl s =
     (let s1 = fst (stopFlight s)
      in s1\<lparr> position := \<lparr> lat = 35.6895, lng = 139.6917 \<rparr>,
             altitude := 0,
             targetAltitude := 0,
             verticalSpeed := 0,
             homePosition := None,
             flightStarted := False,
             route := [],
             waypointIndex := 0,
             horizontalSpeed := speedSlider sl / 3.6,
             timeMultiplier := multiplierSlider sl,
             fullFlightTime := parseInt (fullFlightTimeSlider sl),
             altStability := altStabilitySlider sl,
             hoverMode := False,
             crashed := False \<rparr>)"

text \<open>The manual control buttons.\<close>

definition north :: "state \<Rightarrow> state" where
  "north s = s\<lparr> position := (position s)\<lparr> lat := lat (position s) + 0.0001 \<rparr> \<rparr>"

definition south :: "state \<Rightarrow> state" where
  "south s = s\<lparr> position := (position s)\<lparr> lat := lat (position s) - 0.0001 \<rparr> \<rparr>"

definition east :: "state \<Rightarrow> state" where
  "east s = s\<lparr> position := (position s)\<lparr> lng := lng (position s) + 0.0001 \<rparr> \<rparr>"

definition west :: "state \<Rightarrow> state" where
  "west s = s\<lparr> position := (position s)\<lparr> lng := lng (position s) - 0.0001 \<rparr> \<rparr>"

definition altUp :: "state \<Rightarrow> state" where
  "altUp s = s\<lparr> targetAltitude := targetAltitude s + 5 \<rparr>"

definition altDown :: "state \<Rightarrow> state" where
  "altDown s = s\<lparr> targetAltitude := max 0 (targetAltitude s - 5) \<rparr>"

text \<open>Every operation that writes the state between two ticks.\<close>

datatype command =
    StartFlight | StopFlight | SetRoute "waypointRef list" | SetHome | TakeOffCmd | Land | Hover
  | UpdateParameters params | UpdateWind real real | SetJamZone jamZoneInfo | ClearJamZone
  | SetRepeat bool | Reset sliders | North | South | East | West | AltUp | AltDown

fun exec :: "command \<Rightarrow> state \<Rightarrow> state" where
  "exec StartFlight s = fst (startFlight s)"
| "exec StopFlight s = fst (stopFlight s)"
| "exec (SetRoute r) s = fst (setRoute r s)"
| "exec SetHome s = fst (setHome s)"
| "exec TakeOffCmd s = fst (takeOff s)"
| "exec Land s = fst (land s)"
| "exec Hover s = fst (hover s)"
| "exec (UpdateParameters ps) s = fst (updateParameters ps s)"
| "exec (UpdateWind ws wd) s = fst (updateWind ws wd s)"
| "exec (SetJamZone jz) s = fst (setJamZone jz s)"
| "exec ClearJamZone s = fst (clearJamZone s)"
| "exec (SetRepeat val) s = fst (setRepeat val s)"
| "exec (Reset sl) s = resetBtn_onclick sl s"
| "exec North s = north s"
| "exec South s = south s"
| "exec East s = east s"
| "exec West s = west s"
| "exec AltUp s = altUp s"
| "exec AltDown s = altDown s"

subsection \<open>Reachable states\<close>

text \<open>
  The states the page can produce: the initial state, then commands and ticks in any
  order. The timer calls the tick with \<open>dt = 0.1\<close>.
\<close>

inductive reachable :: "state \<Rightarrow> bool" where
  initial: "reachable initialState"
| command: "reachable s \<Longrightarrow> reachable (exec c s)"
| tick: "reachable s \<Longrightarrow> unitDraws rnd \<Longrightarrow> updateFlightPhysics 0.1 rnd s = Inr s' \<Longrightarrow> reachable s'"

subsection \<open>Concrete inputs\<close>

text \<open>Two waypoints on the meridian of Greenwich, about 111 m apart.\<close>

definition wpA :: point where "wpA = \<lparr> lat = 0, lng = 0 \<rparr>"
definition wpB :: point where "wpB = \<lparr> lat = 0.001, lng = 0 \<rparr>"

text \<open>The initial state with a route of the two waypoints.\<close>

definition routedState :: state where
  "routedState = initialState\<lparr> route := [Obj wpA, Obj wpB] \<rparr>"

text \<open>The initial state after \<^verbatim>\<open>setRoute\<close> with the same point twice.\<close>

definition doubleClickState :: state where
  "doubleClickState = fst (setRoute [Obj wpA, Obj wpA] initialState)"

text \<open>Home set at the initial position, then one step to the north.\<close>

definition movedHomeState :: state where
  "movedHomeState = exec North (exec SetHome initialState)"

text \<open>The initial state with a horizontal velocity of 5 m/s.\<close>

definition glidingState :: state where
  "glidingState = initialState\<lparr> vx := 3, vy := 4 \<rparr>"

definition halfDraws :: draws where
  "halfDraws =
     \<lparr> rTurbulence = 0.5, rJamVx = 0.5, rJamVy = 0.5, rJamVerticalSpeed = 0.5,
       rJamAltitude = 0.5, rJamLat = 0.5, rJamLng = 0.5, rJamRPM = 0.5, rGps = 0.5 \<rparr>"

definition zeroDraws :: draws where
  "zeroDraws =
     \<lparr> rTurbulence = 0, rJamVx = 0, rJamVy = 0, rJamVerticalSpeed = 0,
       rJamAltitude = 0, rJamLat = 0, rJamLng = 0, rJamRPM = 0, rGps = 0 \<rparr>"

text \<open>The default speed of the page (50 km/h) and the lowest speed of its slider (1 km/h).\<close>

definition cruiseSpeed :: real where "cruiseSpeed = 50 / 3.6"
definition slowSpeed :: real where "slowSpeed = 1 / 3.6"

text \<open>A jam zone of 100 m drawn around the vehicle in the initial state.\<close>

definition centreJam :: jamZoneInfo where
  "centreJam = \<lparr> center = position initialState, radius = 100 \<rparr>"

definition jammedState :: state where
  "jammedState = exec (SetJamZone centreJam) initialState"

text \<open>The same with a route of the two waypoints, and that state after one tick.\<close>

definition routedJammedState :: state where
  "routedJammedState = exec (SetRoute [Obj wpA, Obj wpB]) jammedState"

definition crashedInJam :: state where
  "crashedInJam = projr (updateFlightPhysics 0.1 halfDraws routedJammedState)"

text \<open>
  A vehicle on its landing approach at 50 km/h due north, 50 m high, over the centre of
  a jam zone of 8 m, towards a waypoint one degree north.
\<close>

definition wpN :: point where "wpN = \<lparr> lat = 1, lng = 0 \<rparr>"

definition smallJam :: jamZoneInfo where "smallJam = \<lparr> center = wpA, radius = 8 \<rparr>"

definition overflyState :: state where
  "overflyState =
     initialState\<lparr> position := wpA, altitude := 50, flightStarted := True,
                    route := [Obj wpA, Obj wpN], waypointIndex := 1,
                    vy := 50 / 3.6, mode := Landing, jamZone := Some smallJam \<rparr>"

text \<open>
  A jam zone of 200 m drawn in the initial state, its centre 0.001 degrees (about 111 m)
  north of the vehicle, which is on the ground.
\<close>

definition wideJam :: jamZoneInfo where
  "wideJam = \<lparr> center = \<lparr> lat = 55.7532, lng = 37.6156 \<rparr>, radius = 200 \<rparr>"

definition groundedInJam :: state where
  "groundedInJam = exec (SetJamZone wideJam) initialState"

section \<open>Properties\<close>

subsection \<open>Geodesy facts\<close>

lemma atan2_zero_left: "0 < x \<Longrightarrow> atan2 0 x = 0"
  by (simp add: atan2_def)

lemma atan2_nonneg: "0 \<le> y \<Longrightarrow> 0 \<le> atan2 y x"
proof -
  assume y: "0 \<le> y"
  have "- (pi / 2) < arctan (y / x)" by (rule arctan_lbound)
  then have neg: "0 \<le> arctan (y / x) + pi" using pi_gt_zero by linarith
  have pos: "0 < x \<Longrightarrow> 0 \<le> arctan (y / x)" using y by simp
  show ?thesis using y neg pos by (simp add: atan2_def)
qed

lemma haversine_same: "haversine p p = 0"
  by (simp add: haversine_def)

lemma haversine_sym: "haversine a b = haversine b a"
proof -
  have s: "\<And>u v :: real. (sin ((u - v) * pi / 180 / 2))\<^sup>2 = (sin ((v - u) * pi / 180 / 2))\<^sup>2"
  proof -
    fix u v :: real
    have "(u - v) * pi / 180 / 2 = - ((v - u) * pi / 180 / 2)" by (simp add: field_simps)
    then show "(sin ((u - v) * pi / 180 / 2))\<^sup>2 = (sin ((v - u) * pi / 180 / 2))\<^sup>2"
      by (simp only: sin_minus power2_minus)
  qed
  show ?thesis
    unfolding haversine_def Let_def
    by (simp only: s [of "lat b" "lat a"] s [of "lng b" "lng a"] mult.commute [of "cos (lat a * pi / 180)"])
qed

lemma computeDistance_same: "computeDistance p p = 0"
  by (simp add: computeDistance_def haversine_same atan2_zero_left)

lemma computeDistance_sym: "computeDistance a b = computeDistance b a"
  by (simp add: computeDistance_def haversine_sym [of a b])

lemma two_abs_mult_le: "2 * \<bar>x * y\<bar> \<le> x\<^sup>2 + y\<^sup>2" for x y :: real
proof -
  have "0 \<le> (\<bar>x\<bar> - \<bar>y\<bar>)\<^sup>2" by simp
  also have "(\<bar>x\<bar> - \<bar>y\<bar>)\<^sup>2 = x\<^sup>2 + y\<^sup>2 - 2 * \<bar>x * y\<bar>"
    by (simp add: power2_diff abs_mult)
  finally show ?thesis by simp
qed

lemma dot_bound: "\<bar>sin a * sin b + cos a * cos b * c\<bar> \<le> 1" if c: "\<bar>c\<bar> \<le> 1" for a b c :: real
proof -
  have "\<bar>cos a * cos b * c\<bar> = \<bar>cos a * cos b\<bar> * \<bar>c\<bar>" by (simp add: abs_mult)
  also have "\<dots> \<le> \<bar>cos a * cos b\<bar> * 1" using c by (intro mult_left_mono) simp_all
  finally have 1: "\<bar>cos a * cos b * c\<bar> \<le> \<bar>cos a * cos b\<bar>" by simp
  have s: "2 * \<bar>sin a * sin b\<bar> \<le> (sin a)\<^sup>2 + (sin b)\<^sup>2" by (rule two_abs_mult_le)
  have k: "2 * \<bar>cos a * cos b\<bar> \<le> (cos a)\<^sup>2 + (cos b)\<^sup>2" by (rule two_abs_mult_le)
  have "(sin a)\<^sup>2 + (cos a)\<^sup>2 = 1" "(sin b)\<^sup>2 + (cos b)\<^sup>2 = 1" by simp_all
  with s k have 2: "\<bar>sin a * sin b\<bar> + \<bar>cos a * cos b\<bar> \<le> 1" by linarith
  show ?thesis using 1 2 by linarith
qed

lemma sin_half_squared: "(sin (x / 2))\<^sup>2 = (1 - cos x) / 2" for x :: real
  using cos_double_sin [of "x / 2"] by simp

lemma hav_alt: "haversine p q = (1 - (sin (lat p * pi / 180) * sin (lat q * pi / 180) + cos (lat p * pi / 180) * cos (lat q * pi / 180) * cos ((lng q - lng p) * pi / 180))) / 2"
proof -
  have d: "(lat q - lat p) * pi / 180 = lat q * pi / 180 - lat p * pi / 180" by (simp add: field_simps)
  show ?thesis
    unfolding haversine_def Let_def sin_half_squared d cos_diff
    by (simp add: field_simps)
qed

lemma haversine_range: "0 \<le> haversine p q \<and> haversine p q \<le> 1"
  using dot_bound [of "cos ((lng q - lng p) * pi / 180)" "lat p * pi / 180" "lat q * pi / 180"]
  by (simp add: hav_alt abs_le_iff)

lemma computeDistance_nonneg: "0 \<le> computeDistance a b"
proof -
  have "0 \<le> sqrt (haversine a b)" using haversine_range by simp
  then have "0 \<le> atan2 (sqrt (haversine a b)) (sqrt (1 - haversine a b))" by (rule atan2_nonneg)
  then show ?thesis by (simp add: computeDistance_def Let_def)
qed

text \<open>Two points on one meridian: the distance is the arc of the latitudes.\<close>

lemma atan2_sin_cos: "0 \<le> t \<Longrightarrow> t < pi / 2 \<Longrightarrow> atan2 (sin t) (cos t) = t"
proof -
  assume t: "0 \<le> t" "t < pi / 2"
  then have c: "0 < cos t" using pi_gt_zero by (intro cos_gt_zero_pi) linarith+
  have "arctan (sin t / cos t) = t" using arctan_tan [of t] t by (simp add: tan_def)
  with c show ?thesis by (simp add: atan2_def)
qed

lemma computeDistance_meridian:
  assumes "lng a = lng b" "\<bar>lat b - lat a\<bar> < 180"
  shows "computeDistance a b = 6371000 * (\<bar>lat b - lat a\<bar> * pi / 180)"
proof -
  define t where "t = \<bar>lat b - lat a\<bar> * pi / 180 / 2"
  have t0: "0 \<le> t" by (simp add: t_def)
  have t1: "t < pi / 2" using assms(2) by (simp add: t_def)
  have c: "0 < cos t" using t0 t1 pi_gt_zero by (intro cos_gt_zero_pi) linarith+
  have s: "0 \<le> sin t" using t0 t1 pi_gt_zero by (intro sin_ge_zero) linarith+
  have "(sin ((lat b - lat a) * pi / 180 / 2))\<^sup>2 = (sin t)\<^sup>2"
  proof (cases "0 \<le> lat b - lat a")
    case True then show ?thesis by (simp add: t_def)
  next
    case False
    then have "(lat b - lat a) * pi / 180 / 2 = - t" by (simp add: t_def field_simps)
    then show ?thesis by (simp only: sin_minus power2_minus)
  qed
  then have A: "haversine a b = (sin t)\<^sup>2" using assms(1) by (simp add: haversine_def)
  have "1 - (sin t)\<^sup>2 = (cos t)\<^sup>2" by (simp add: cos_squared_eq)
  then have B: "sqrt (1 - haversine a b) = cos t" using c A by simp
  have C: "sqrt (haversine a b) = sin t" using s A by simp
  show ?thesis
    unfolding computeDistance_def Let_def B C atan2_sin_cos [OF t0 t1]
    by (simp add: t_def)
qed

subsection \<open>Route filtering\<close>

lemma loop_append: "\<exists>ys. filterRoute_loop coords acc xs = acc @ ys \<and> subseq ys xs"
proof (induction xs arbitrary: acc)
  case Nil
  show ?case by simp
next
  case (Cons x xs)
  show ?case
  proof (cases "acc = [] \<or> computeDistance (coords x) (coords (last acc)) > 5")
    case True
    from Cons.IH [of "acc @ [x]"] obtain ys
      where "filterRoute_loop coords (acc @ [x]) xs = (acc @ [x]) @ ys" "subseq ys xs" by blast
    with True have "filterRoute_loop coords acc (x # xs) = acc @ (x # ys) \<and> subseq (x # ys) (x # xs)"
      by simp
    then show ?thesis by blast
  next
    case False
    from Cons.IH [of acc] obtain ys
      where "filterRoute_loop coords acc xs = acc @ ys" "subseq ys xs" by blast
    with False have "filterRoute_loop coords acc (x # xs) = acc @ ys \<and> subseq ys (x # xs)"
      by auto
    then show ?thesis by blast
  qed
qed

lemma filterRoute_subseq: "subseq (filterRoute coords pts) pts"
  using loop_append [of coords "[]" pts] by (auto simp: filterRoute_def)

lemma filterRoute_hd: "pts \<noteq> [] \<Longrightarrow> filterRoute coords pts \<noteq> [] \<and> hd (filterRoute coords pts) = hd pts"
proof (cases pts)
  case Nil
  assume "pts \<noteq> []"
  with Nil show ?thesis by simp
next
  case (Cons x xs)
  from loop_append [of coords "[x]" xs] obtain ys
    where "filterRoute_loop coords [x] xs = [x] @ ys" by blast
  with Cons show ?thesis by (simp add: filterRoute_def)
qed

lemma loop_successively:
  "successively (kept coords) acc \<Longrightarrow> successively (kept coords) (filterRoute_loop coords acc xs)"
proof (induction xs arbitrary: acc)
  case Nil
  then show ?case by simp
next
  case (Cons x xs)
  have "successively (kept coords) (if acc = [] \<or> computeDistance (coords x) (coords (last acc)) > 5 then acc @ [x] else acc)"
    using Cons.prems by (auto simp: successively_append_iff kept_def)
  from Cons.IH [OF this] show ?case by simp
qed

lemma loop_fixed:
  "successively (kept coords) (acc @ xs) \<Longrightarrow> filterRoute_loop coords acc xs = acc @ xs"
proof (induction xs arbitrary: acc)
  case Nil
  show ?case by simp
next
  case (Cons x xs)
  from Cons.prems have k: "acc = [] \<or> computeDistance (coords x) (coords (last acc)) > 5"
    by (auto simp: successively_append_iff kept_def)
  from Cons.prems have "successively (kept coords) ((acc @ [x]) @ xs)" by simp
  from Cons.IH [OF this] k show ?case by simp
qed

lemma filterRoute_kept: "successively (kept coords) (filterRoute coords pts)"
  unfolding filterRoute_def by (rule loop_successively) simp

lemma filterRoute_idem: "filterRoute coords (filterRoute coords pts) = filterRoute coords pts"
  using loop_fixed [of coords "[]" "filterRoute coords pts"] filterRoute_kept [of coords pts]
  by (simp add: filterRoute_def)

text \<open>
  C4. For every input sequence, no two consecutive points of the filtered route are
  closer than 5 m by the haversine distance (in either order of the two points), and
  filtering a filtered route returns it unchanged.
\<close>

theorem filterRoute_spacing_idempotent: "successively (\<lambda>a b. \<not> computeDistance (coords a) (coords b) < 5
                           \<and> \<not> computeDistance (coords b) (coords a) < 5)
               (filterRoute coords pts)
   \<and> filterRoute coords (filterRoute coords pts) = filterRoute coords pts"
proof -
  have "successively (\<lambda>a b. \<not> computeDistance (coords a) (coords b) < 5
                           \<and> \<not> computeDistance (coords b) (coords a) < 5)
               (filterRoute coords pts)"
    using filterRoute_kept [of coords pts]
  proof (rule successively_mono)
    fix x y assume "kept coords x y"
    then have "computeDistance (coords y) (coords x) > 5" by (simp add: kept_def)
    moreover have "computeDistance (coords x) (coords y) = computeDistance (coords y) (coords x)"
      by (rule computeDistance_sym)
    ultimately show "\<not> computeDistance (coords x) (coords y) < 5
                           \<and> \<not> computeDistance (coords y) (coords x) < 5" by simp
  qed
  then show ?thesis by (simp add: filterRoute_idem)
qed

text \<open>
  C10. The filter keeps the first point of a non-empty input as the first point of its
  output, and its output is a subsequence of the input. So a start command that is
  accepted while the vehicle is not in flight puts the vehicle on the first waypoint of
  the route as it was before filtering, and takes home from that waypoint when no home
  is set.
\<close>

theorem first_waypoint_kept:
  "(pts \<noteq> [] \<longrightarrow> filterRoute coords pts \<noteq> [] \<and> hd (filterRoute coords pts) = hd pts)
   \<and> subseq (filterRoute coords pts) pts
   \<and> (2 \<le> length (route s) \<and> \<not> flightStarted s \<longrightarrow>
        position (fst (startFlight s)) = deref (position s) (hd (route s))
        \<and> homePosition (fst (startFlight s)) =
            (case homePosition s of None \<Rightarrow> Some (deref (position s) (hd (route s))) | Some home \<Rightarrow> Some home))"
proof -
  have start: "position (fst (startFlight s)) = deref (position s) (hd (route s))
        \<and> homePosition (fst (startFlight s)) =
            (case homePosition s of None \<Rightarrow> Some (deref (position s) (hd (route s))) | Some home \<Rightarrow> Some home)"
    if len: "2 \<le> length (route s)" and nf: "\<not> flightStarted s"
  proof -
    from len have ne: "route s \<noteq> []" by auto
    have h: "hd (filterRoute (deref (position s)) (route s)) = hd (route s)"
      using filterRoute_hd [OF ne] by simp
    from len have nl: "\<not> length (route s) < 2" by simp
    show ?thesis using nl nf h by (simp add: startFlight_def Let_def split: option.splits)
  qed
  show ?thesis using filterRoute_hd [of pts coords] filterRoute_subseq [of coords pts] start by blast
qed

theorem first_waypoint_kept_witness:
  "[wpA, wpB] \<noteq> [] \<and> hd (filterRoute id [wpA, wpB]) = wpA \<and> subseq (filterRoute id [wpA, wpB]) [wpA, wpB]
   \<and> 2 \<le> length (route routedState) \<and> \<not> flightStarted routedState
   \<and> position (fst (startFlight routedState)) = wpA
   \<and> homePosition (fst (startFlight routedState)) = Some wpA"
  using first_waypoint_kept [of "[wpA, wpB]" id routedState]
  by (simp add: routedState_def initialState_def)

subsection \<open>Commands\<close>

lemma startFlight_short_route: "length (route s) < 2 \<Longrightarrow> startFlight s = (s, [])"
  by (simp add: startFlight_def)

text \<open>
  C6. The start command on a route of fewer than two points: the state is unchanged, and
  nothing is shown to the caller, neither an alert nor a console line. Here the route is
  what \<^verbatim>\<open>setRoute\<close> leaves of two clicks on the same point.
\<close>

theorem startFlight_rejects_silently:
  "reachable doubleClickState \<and> route doubleClickState = [Obj wpA]
   \<and> startFlight doubleClickState = (doubleClickState, [])"
proof -
  have "reachable (exec (SetRoute [Obj wpA, Obj wpA]) initialState)"
    by (intro reachable.command reachable.initial)
  then have "reachable doubleClickState" by (simp add: doubleClickState_def)
  moreover have "route doubleClickState = [Obj wpA] \<and> startFlight doubleClickState = (doubleClickState, [])"
    by (simp add: doubleClickState_def startFlight_def setRoute_def filterRoute_def computeDistance_same)
  ultimately show ?thesis by (rule conjI)
qed

text \<open>
  C1, as stated, fails: the reset handler applied to the initial state moves the position
  to the centre of the map, more than 20 degrees of latitude away.
\<close>

theorem reset_counterexample:
  "reachable initialState
   \<and> \<bar>lat (position (resetBtn_onclick pageSliders initialState)) - lat (position initialState)\<bar> > 20"
proof -
  have "\<bar>lat (position (resetBtn_onclick pageSliders initialState)) - lat (position initialState)\<bar> > 20"
    by (simp add: resetBtn_onclick_def initialState_def stopFlight_def)
  with reachable.initial show ?thesis by (rule conjI)
qed

text \<open>
  C1, amended. Whatever the state, the reset handler returns altitude, target altitude,
  vertical speed, home position, flight-active flag, route, waypoint index, hover flag
  and crashed flag to their initial values, puts the position at the centre of the map
  (35.6895, 139.6917), and sets the four flight parameters from the sliders.
\<close>

theorem reset_fields:
  "position (resetBtn_onclick sl s) = \<lparr> lat = 35.6895, lng = 139.6917 \<rparr>
   \<and> altitude (resetBtn_onclick sl s) = altitude initialState
   \<and> targetAltitude (resetBtn_onclick sl s) = targetAltitude initialState
   \<and> verticalSpeed (resetBtn_onclick sl s) = verticalSpeed initialState
   \<and> homePosition (resetBtn_onclick sl s) = homePosition initialState
   \<and> flightStarted (resetBtn_onclick sl s) = flightStarted initialState
   \<and> route (resetBtn_onclick sl s) = route initialState
   \<and> waypointIndex (resetBtn_onclick sl s) = waypointIndex initialState
   \<and> hoverMode (resetBtn_onclick sl s) = hoverMode initialState
   \<and> crashed (resetBtn_onclick sl s) = crashed initialState
   \<and> horizontalSpeed (resetBtn_onclick sl s) = speedSlider sl / 3.6
   \<and> timeMultiplier (resetBtn_onclick sl s) = multiplierSlider sl
   \<and> fullFlightTime (resetBtn_onclick sl s) = parseInt (fullFlightTimeSlider sl)
   \<and> altStability (resetBtn_onclick sl s) = altStabilitySlider sl"
  by (simp add: resetBtn_onclick_def initialState_def stopFlight_def)

subsection \<open>The tick\<close>

lemma steer_frame:
  "steer dt dvx dvy s = Inr s1 \<Longrightarrow>
     jamZone s1 = jamZone s \<and> batteryLevel s1 = batteryLevel s \<and> homePosition s1 = homePosition s
     \<and> crashed s1 = crashed s \<and> flightStarted s1 = flightStarted s"
  by (auto simp: steer_def Let_def split: if_splits)

lemma advanceWaypoint_frame:
  "advanceWaypoint s tw d = (s1, tw1, d1) \<Longrightarrow>
     jamZone s1 = jamZone s \<and> batteryLevel s1 = batteryLevel s \<and> homePosition s1 = homePosition s
     \<and> crashed s1 = crashed s \<and> flightStarted s1 = flightStarted s"
  by (auto simp: advanceWaypoint_def Let_def split: if_splits option.splits)

lemma navigate_frame:
  "navigate dt s = Inr s1 \<Longrightarrow>
     jamZone s1 = jamZone s \<and> batteryLevel s1 = batteryLevel s \<and> homePosition s1 = homePosition s
     \<and> crashed s1 = crashed s \<and> flightStarted s1 = flightStarted s"
  unfolding navigate_def Let_def
  by (auto split: if_splits prod.splits dest!: steer_frame advanceWaypoint_frame)

lemma landingApproach_frame:
  "landingApproach dt s = Inr s1 \<Longrightarrow>
     jamZone s1 = jamZone s \<and> batteryLevel s1 = batteryLevel s \<and> homePosition s1 = homePosition s
     \<and> crashed s1 = crashed s \<and> flightStarted s1 = flightStarted s"
  unfolding landingApproach_def Let_def by (auto dest!: steer_frame)

lemma horizontalMovement_frame:
  "horizontalMovement dt s = Inr s1 \<Longrightarrow>
     jamZone s1 = jamZone s \<and> batteryLevel s1 = batteryLevel s \<and> homePosition s1 = homePosition s
     \<and> crashed s1 = crashed s \<and> flightStarted s1 = flightStarted s"
  unfolding horizontalMovement_def
  by (auto split: if_splits dest!: navigate_frame landingApproach_frame)

lemma flightModes_frame:
  "jamZone (flightModes s) = jamZone s \<and> batteryLevel (flightModes s) = batteryLevel s
   \<and> homePosition (flightModes s) = homePosition s \<and> position (flightModes s) = position s"
  by (simp add: flightModes_def Let_def)

lemma verticalControl_frame:
  "verticalControl dt rnd s = Inr (va, s1) \<Longrightarrow>
     jamZone s1 = jamZone s \<and> batteryLevel s1 = batteryLevel s \<and> homePosition s1 = homePosition s
     \<and> position s1 = position s \<and> crashed s1 = crashed s \<and> flightStarted s1 = flightStarted s"
  by (auto simp: verticalControl_def Let_def split: if_splits)

lemma jamInterference_frame:
  "batteryLevel (jamInterference rnd s) = batteryLevel s
   \<and> homePosition (jamInterference rnd s) = homePosition s"
  by (simp add: jamInterference_def Let_def split: option.splits)

lemma flightDynamics_frame:
  "flightDynamics dt rnd s = Inr (va, s1) \<Longrightarrow>
     batteryLevel s1 = batteryLevel s \<and> homePosition s1 = homePosition s"
  unfolding flightDynamics_def
  by (auto split: sum.splits prod.splits
           dest!: horizontalMovement_frame verticalControl_frame
           simp: flightModes_frame jamInterference_frame)

lemma totalLoad_nonneg: "0 \<le> totalLoad va s"
  by (simp add: totalLoad_def)

lemma powerModel_battery:
  "batteryLevel (powerModel dt va s) = max 0 (batteryLevel s - 0.01 * totalLoad va s * dt)"
  by (simp add: powerModel_def Let_def max_def)

lemma odometer_frame:
  "batteryLevel (odometer dt p s) = batteryLevel s \<and> homePosition (odometer dt p s) = homePosition s
   \<and> crashed (odometer dt p s) = crashed s \<and> verticalSpeed (odometer dt p s) = verticalSpeed s
   \<and> altitude (odometer dt p s) = altitude s \<and> vx (odometer dt p s) = vx s
   \<and> flightStarted (odometer dt p s) = flightStarted s"
  by (simp add: odometer_def Let_def)

lemma powerModel_frame:
  "homePosition (powerModel dt va s) = homePosition s
   \<and> crashed (powerModel dt va s) = crashed s \<and> verticalSpeed (powerModel dt va s) = verticalSpeed s
   \<and> altitude (powerModel dt va s) = altitude s \<and> vx (powerModel dt va s) = vx s
   \<and> flightStarted (powerModel dt va s) = flightStarted s"
  by (simp add: powerModel_def Let_def)

lemma tick_grounded:
  "\<not> crashed s \<Longrightarrow> \<not> flightStarted s \<Longrightarrow> dt \<noteq> 0 \<Longrightarrow> \<not> isl (updateFlightPhysics dt rnd s)"
  by (simp add: updateFlightPhysics_def flightDynamics_def horizontalMovement_def verticalControl_def Let_def)

lemma exec_batteryLevel: "batteryLevel (exec c s) = batteryLevel s"
  by (cases c)
     (simp_all add: startFlight_def stopFlight_def setRoute_def setHome_def takeOff_def land_def
        hover_def updateParameters_def updateWind_def setJamZone_def clearJamZone_def
        setRepeat_def resetBtn_onclick_def north_def south_def east_def west_def altUp_def
        altDown_def Let_def split: option.splits)

lemma tick_batteryLevel_nonneg:
  assumes "0 \<le> batteryLevel s" "updateFlightPhysics dt rnd s = Inr s'"
  shows "0 \<le> batteryLevel s'"
proof (cases "crashed s")
  case True
  with assms show ?thesis by (simp add: updateFlightPhysics_def)
next
  case False
  with assms(2) obtain va s1 where "s' = odometer dt (position s) (powerModel dt va s1)"
    by (auto simp: updateFlightPhysics_def Let_def split: sum.splits)
  then show ?thesis by (simp add: odometer_frame powerModel_battery)
qed

lemma reachable_batteryLevel_nonneg: "reachable s \<Longrightarrow> 0 \<le> batteryLevel s"
proof (induction rule: reachable.induct)
  case initial
  show ?case by (simp add: initialState_def)
next
  case (command s c)
  then show ?case by (simp add: exec_batteryLevel)
next
  case (tick s rnd s')
  then show ?case using tick_batteryLevel_nonneg by blast
qed

text \<open>
  C9. A tick of a vehicle that has not crashed, with a tick duration and a battery level
  that are not negative (the battery level of a reachable state never is): the load is
  not negative, the battery level after the tick is the level before minus 0.01 times
  load times duration, floored at 0, and it does not exceed the level before.
\<close>

theorem battery_decay:
  assumes "\<not> crashed s" "0 \<le> dt" "0 \<le> batteryLevel s" "updateFlightPhysics dt rnd s = Inr s'"
  shows "\<exists>verticalAccel s1.
           flightDynamics dt rnd s = Inr (verticalAccel, s1)
           \<and> 0 \<le> totalLoad verticalAccel s1
           \<and> batteryLevel s' = max 0 (batteryLevel s - 0.01 * totalLoad verticalAccel s1 * dt)
           \<and> batteryLevel s' \<le> batteryLevel s"
proof -
  from assms(1,4) obtain va s1 where fd: "flightDynamics dt rnd s = Inr (va, s1)"
    and s': "s' = odometer dt (position s) (powerModel dt va s1)"
    by (auto simp: updateFlightPhysics_def Let_def split: sum.splits)
  have b1: "batteryLevel s1 = batteryLevel s" using flightDynamics_frame [OF fd] by simp
  have load: "0 \<le> totalLoad va s1" by (rule totalLoad_nonneg)
  have eq: "batteryLevel s' = max 0 (batteryLevel s - 0.01 * totalLoad va s1 * dt)"
    by (simp add: s' odometer_frame powerModel_battery b1)
  have "0 \<le> 0.01 * totalLoad va s1 * dt" using load assms(2) by simp
  then have le: "batteryLevel s' \<le> batteryLevel s" using eq assms(3) by (simp add: max_def)
  show ?thesis using fd load eq le by blast
qed

theorem battery_decay_witness:
  "\<not> crashed glidingState \<and> (0::real) \<le> 0.1 \<and> 0 \<le> batteryLevel glidingState
   \<and> \<not> isl (updateFlightPhysics 0.1 halfDraws glidingState)
   \<and> batteryLevel (projr (updateFlightPhysics 0.1 halfDraws glidingState)) \<le> batteryLevel glidingState
   \<and> batteryLevel (projr (updateFlightPhysics 0.1 halfDraws glidingState)) = 99.995"
proof -
  have a: "\<not> crashed glidingState" "0 \<le> batteryLevel glidingState" "\<not> flightStarted glidingState"
    by (simp_all add: glidingState_def initialState_def)
  have r: "\<not> isl (updateFlightPhysics 0.1 halfDraws glidingState)"
    using a by (intro tick_grounded) simp_all
  then have e: "updateFlightPhysics 0.1 halfDraws glidingState = Inr (projr (updateFlightPhysics 0.1 halfDraws glidingState))"
    by (cases "updateFlightPhysics 0.1 halfDraws glidingState") simp_all
  have "(0::real) \<le> 0.1" by simp
  have s25: "sqrt 25 = (5::real)" using real_sqrt_abs [of 5] by simp
  have v: "batteryLevel (projr (updateFlightPhysics 0.1 halfDraws glidingState)) = 99.995"
    by (simp add: updateFlightPhysics_def flightDynamics_def horizontalMovement_def flightModes_def
          verticalControl_def jamInterference_def powerModel_def odometer_def totalLoad_def
          glidingState_def initialState_def halfDraws_def Let_def clamp_def maxIntegral_def
          Kp_alt_def Ki_alt_def Kd_alt_def s25)
  from battery_decay [OF a(1) \<open>(0::real) \<le> 0.1\<close> a(2) e]
  have le: "batteryLevel (projr (updateFlightPhysics 0.1 halfDraws glidingState)) \<le> batteryLevel glidingState"
    by blast
  show ?thesis using a r v le by simp
qed

subsection \<open>Desired speed\<close>

lemma envelope_pos: "0 < b\<^sup>2 / (2 * 2) + (10::real)"
proof -
  have "0 \<le> b\<^sup>2 / (2 * 2)" by simp
  then show ?thesis by linarith
qed

lemma brakedSpeed_mono:
  assumes "0 \<le> dv1" "dv1 \<le> dv2"
  shows "brakedSpeed b dv1 \<le> brakedSpeed b dv2"
proof -
  define L where "L = b\<^sup>2 / (2 * 2) + 10"
  have L: "0 < L" unfolding L_def by (rule envelope_pos)
  have lin: "b * (dv1 / L) \<le> b * (dv2 / L)" if "0 \<le> b"
    using that assms L by (intro mult_left_mono divide_right_mono) simp_all
  have top: "b * (dv1 / L) \<le> b" if "0 \<le> b" "dv1 < L"
  proof -
    have "dv1 / L \<le> 1" using that L by simp
    then have "b * (dv1 / L) \<le> b * 1" using that by (intro mult_left_mono) simp_all
    then show ?thesis by simp
  qed
  have neg: "b * (dv / L) \<le> 0" if "b < 0" "0 \<le> dv" for dv
  proof -
    have "0 \<le> dv / L" using that L by simp
    with that(1) show ?thesis by (intro mult_nonpos_nonneg) simp_all
  qed
  have unfold: "brakedSpeed b dv = max minSpeed (if dv < L then b * (dv / L) else b)" for dv
    by (simp add: brakedSpeed_def Let_def L_def)
  show ?thesis
  proof (cases "0 \<le> b")
    case True
    have "(if dv1 < L then b * (dv1 / L) else b) \<le> (if dv2 < L then b * (dv2 / L) else b)"
    proof (cases "dv2 < L")
      case True
      with assms(2) have "dv1 < L" by simp
      with True lin [OF \<open>0 \<le> b\<close>] show ?thesis by (simp only: if_True)
    next
      case False
      show ?thesis
      proof (cases "dv1 < L")
        case True
        with False top [OF \<open>0 \<le> b\<close> True] show ?thesis by (simp only: if_True if_False)
      next
        case False
        with \<open>\<not> dv2 < L\<close> show ?thesis by (simp only: if_False)
      qed
    qed
    then show ?thesis unfolding unfold by (rule max.mono [OF order_refl])
  next
    case False
    then have b: "b < 0" by simp
    have m: "brakedSpeed b dv = minSpeed" if "0 \<le> dv" for dv
    proof -
      have "(if dv < L then b * (dv / L) else b) \<le> 0"
        using neg [OF b that] b by (cases "dv < L") simp_all
      then have "(if dv < L then b * (dv / L) else b) \<le> minSpeed" by (simp add: minSpeed_def)
      then show ?thesis unfolding unfold by (rule max.absorb1)
    qed
    from assms have "0 \<le> dv2" by simp
    then show ?thesis using m [OF assms(1)] m [of dv2] by simp
  qed
qed

lemma brakedSpeed_floor: "minSpeed \<le> brakedSpeed b dv"
  by (simp add: brakedSpeed_def Let_def)

lemma brakedSpeed_outside: "b\<^sup>2 / (2 * 2) + 10 \<le> dv \<Longrightarrow> brakedSpeed b dv = max minSpeed b"
  by (simp add: brakedSpeed_def Let_def)

lemma computeDesiredSpeed_far:
  "10 \<le> d \<Longrightarrow> computeDesiredSpeed b cur wp d =
     brakedSpeed b (computeDistance cur (getVirtualTarget cur wp (b\<^sup>2 / (2 * 2)) 10))"
  by (simp add: computeDesiredSpeed_def Let_def)

lemma computeDesiredSpeed_near: "d < 10 \<Longrightarrow> computeDesiredSpeed b cur wp d = b"
  by (simp add: computeDesiredSpeed_def)

lemma virtualTarget_meridian:
  assumes "lng cur = lng wp" "\<bar>lat wp - lat cur\<bar> < 180" "0 < L" "L < computeDistance cur wp"
  shows "computeDistance cur (getVirtualTarget cur wp (L - 10) 10) = L"
proof -
  define d where "d = computeDistance cur wp"
  define D where "D = lat wp - lat cur"
  have d: "d = 6371000 * (\<bar>D\<bar> * pi / 180)"
    unfolding d_def D_def using assms(1,2) by (rule computeDistance_meridian)
  have dpos: "0 < d" using assms(3,4) by (simp add: d_def)
  define ratio where "ratio = (d - (L - 10) - 10) / d"
  have r: "1 - ratio = L / d" using dpos by (simp add: ratio_def field_simps)
  have r01: "0 < L / d" "L / d < 1" using dpos assms(3,4) by (simp_all add: d_def)
  define vt where "vt = \<lparr> lat = lat wp + (lat cur - lat wp) * ratio, lng = lng wp + (lng cur - lng wp) * ratio \<rparr>"
  have g: "getVirtualTarget cur wp (L - 10) 10 = vt"
    using assms(4) by (simp add: getVirtualTarget_def Let_def vt_def ratio_def d_def)
  have lngv: "lng cur = lng vt" using assms(1) by (simp add: vt_def)
  have latv: "lat vt - lat cur = D * (L / d)"
    unfolding vt_def D_def r [symmetric] by (simp add: algebra_simps)
  have "\<bar>L / d\<bar> = L / d" using r01(1) by (simp only: abs_of_pos)
  then have absv: "\<bar>lat vt - lat cur\<bar> = \<bar>D\<bar> * (L / d)"
    by (simp only: latv abs_mult)
  have "\<bar>D\<bar> * (L / d) \<le> \<bar>D\<bar> * 1" using r01 by (intro mult_left_mono) simp_all
  then have lt: "\<bar>lat vt - lat cur\<bar> < 180" using assms(2) by (simp add: absv D_def)
  have "computeDistance cur vt = 6371000 * (\<bar>lat vt - lat cur\<bar> * pi / 180)"
    using lngv lt by (rule computeDistance_meridian)
  also have "\<dots> = d * (L / d)" by (simp add: absv d)
  also have "\<dots> = L" using dpos by simp
  finally show ?thesis by (simp add: g)
qed

lemma distance_wpA_wpB: "computeDistance wpA wpB = 6371000 * (0.001 * pi / 180)"
  using computeDistance_meridian [of wpA wpB] by (simp add: wpA_def wpB_def)

lemma distance_wpA_wpB_bounds: "70 < computeDistance wpA wpB \<and> computeDistance wpA wpB < 142"
  using pi_ge_two pi_less_4 by (simp add: distance_wpA_wpB)

text \<open>
  C5, as stated, fails at the lowest speed of the slider, 1 km/h: at the waypoint the
  desired speed is that base speed, below the minimum speed; and about 111 m from the
  waypoint, outside the braking envelope, the desired speed is not the base speed.
\<close>

theorem desiredSpeed_counterexample:
  "computeDesiredSpeed slowSpeed wpA wpA (computeDistance wpA wpA) < minSpeed
   \<and> slowSpeed\<^sup>2 / (2 * 2) + 10 < computeDistance wpA wpB
   \<and> computeDesiredSpeed slowSpeed wpA wpB (computeDistance wpA wpB) \<noteq> slowSpeed"
proof -
  have 1: "computeDesiredSpeed slowSpeed wpA wpA (computeDistance wpA wpA) < minSpeed"
    by (simp add: computeDistance_same computeDesiredSpeed_def slowSpeed_def minSpeed_def)
  have 2: "slowSpeed\<^sup>2 / (2 * 2) + 10 < computeDistance wpA wpB"
    using distance_wpA_wpB_bounds by (simp add: slowSpeed_def power2_eq_square)
  have "10 \<le> computeDistance wpA wpB" using distance_wpA_wpB_bounds by simp
  then have "minSpeed \<le> computeDesiredSpeed slowSpeed wpA wpB (computeDistance wpA wpB)"
    by (simp add: computeDesiredSpeed_far brakedSpeed_floor)
  then have 3: "computeDesiredSpeed slowSpeed wpA wpB (computeDistance wpA wpB) \<noteq> slowSpeed"
    by (simp add: slowSpeed_def minSpeed_def)
  show ?thesis using 1 2 3 by simp
qed

text \<open>
  C5, amended. The desired speed of the braking branch is a non-decreasing function of
  the distance to the virtual target. While the waypoint is at least 10 m away the
  desired speed is that of the braking branch and never below the minimum speed, and it
  is the larger of the minimum speed and the base speed whenever the distance to the
  virtual target is at least the braking distance plus the safety margin; that is so
  outside the braking envelope when vehicle and waypoint lie on one meridian. Closer
  than 10 m to the waypoint the desired speed is the base speed.
\<close>

theorem desiredSpeed_braking:
  "(0 \<le> dv1 \<and> dv1 \<le> dv2 \<longrightarrow> brakedSpeed baseSpeed dv1 \<le> brakedSpeed baseSpeed dv2)
   \<and> (10 \<le> d \<longrightarrow>
         computeDesiredSpeed baseSpeed cur wp d
           = brakedSpeed baseSpeed
               (computeDistance cur (getVirtualTarget cur wp (baseSpeed\<^sup>2 / (2 * 2)) 10))
         \<and> minSpeed \<le> computeDesiredSpeed baseSpeed cur wp d)
   \<and> (baseSpeed\<^sup>2 / (2 * 2) + 10 \<le> dv \<longrightarrow> brakedSpeed baseSpeed dv = max minSpeed baseSpeed)
   \<and> (lng cur = lng wp \<and> \<bar>lat wp - lat cur\<bar> < 180
         \<and> baseSpeed\<^sup>2 / (2 * 2) + 10 < computeDistance cur wp \<longrightarrow>
         computeDesiredSpeed baseSpeed cur wp (computeDistance cur wp) = max minSpeed baseSpeed)
   \<and> (d0 < 10 \<longrightarrow> computeDesiredSpeed baseSpeed cur wp d0 = baseSpeed)"
proof -
  have far: "computeDesiredSpeed baseSpeed cur wp d
           = brakedSpeed baseSpeed
               (computeDistance cur (getVirtualTarget cur wp (baseSpeed\<^sup>2 / (2 * 2)) 10))
         \<and> minSpeed \<le> computeDesiredSpeed baseSpeed cur wp d" if "10 \<le> d"
    using that by (simp add: computeDesiredSpeed_far brakedSpeed_floor)
  have mer: "computeDesiredSpeed baseSpeed cur wp (computeDistance cur wp) = max minSpeed baseSpeed"
    if m: "lng cur = lng wp" "\<bar>lat wp - lat cur\<bar> < 180"
      and out: "baseSpeed\<^sup>2 / (2 * 2) + 10 < computeDistance cur wp"
  proof -
    define L where "L = baseSpeed\<^sup>2 / (2 * 2) + 10"
    have L: "0 < L" unfolding L_def by (rule envelope_pos)
    have L10: "L - 10 = baseSpeed\<^sup>2 / (2 * 2)" by (simp add: L_def)
    have v: "computeDistance cur (getVirtualTarget cur wp (baseSpeed\<^sup>2 / (2 * 2)) 10) = L"
      using virtualTarget_meridian [OF m L] out unfolding L10 by (simp add: L_def)
    have "0 \<le> baseSpeed\<^sup>2 / (2 * 2)" by simp
    with out have "10 \<le> computeDistance cur wp" by linarith
    then show ?thesis
      by (simp only: computeDesiredSpeed_far v) (simp add: brakedSpeed_outside L_def)
  qed
  show ?thesis
    using brakedSpeed_mono [of dv1 dv2 baseSpeed] far mer
      brakedSpeed_outside [of baseSpeed dv] computeDesiredSpeed_near [of d0 baseSpeed cur wp]
    by blast
qed

theorem desiredSpeed_braking_witness:
  "(0::real) \<le> 20 \<and> (20::real) \<le> 30 \<and> brakedSpeed cruiseSpeed 20 \<le> brakedSpeed cruiseSpeed 30
   \<and> 10 \<le> computeDistance wpA wpB
   \<and> minSpeed \<le> computeDesiredSpeed cruiseSpeed wpA wpB (computeDistance wpA wpB)
   \<and> cruiseSpeed\<^sup>2 / (2 * 2) + 10 \<le> 100 \<and> brakedSpeed cruiseSpeed 100 = cruiseSpeed
   \<and> lng wpA = lng wpB \<and> \<bar>lat wpB - lat wpA\<bar> < 180
   \<and> cruiseSpeed\<^sup>2 / (2 * 2) + 10 < computeDistance wpA wpB
   \<and> computeDesiredSpeed cruiseSpeed wpA wpB (computeDistance wpA wpB) = cruiseSpeed
   \<and> (5::real) < 10 \<and> computeDesiredSpeed cruiseSpeed wpA wpB 5 = cruiseSpeed"
proof -
  have d: "10 \<le> computeDistance wpA wpB" using distance_wpA_wpB_bounds by simp
  have L: "cruiseSpeed\<^sup>2 / (2 * 2) + 10 \<le> 100" "cruiseSpeed\<^sup>2 / (2 * 2) + 10 < 70"
    by (simp_all add: cruiseSpeed_def power2_eq_square)
  have out: "cruiseSpeed\<^sup>2 / (2 * 2) + 10 < computeDistance wpA wpB"
    using L(2) distance_wpA_wpB_bounds by linarith
  have m: "lng wpA = lng wpB" "\<bar>lat wpB - lat wpA\<bar> < 180" by (simp_all add: wpA_def wpB_def)
  have mx: "max minSpeed cruiseSpeed = cruiseSpeed" by (simp add: minSpeed_def cruiseSpeed_def)
  note t = desiredSpeed_braking [of 20 30 cruiseSpeed "computeDistance wpA wpB" wpA wpB 100 5]
  show ?thesis using t d L(1) out m mx by simp
qed

subsection \<open>Jam zone\<close>

lemma expFactor_bounds:
  assumes "0 \<le> x" "x \<le> 1"
  shows "1 / 2 \<le> 1.5 * exp x - 1 \<and> 1.5 * exp x - 1 \<le> (7 / 2 :: real)"
proof -
  have "1 \<le> exp x" using assms(1) by simp
  moreover have "exp x \<le> exp 1" using assms(2) by simp
  then have "exp x \<le> 3" using exp_le by linarith
  ultimately show ?thesis by simp
qed

lemma jam_ratio:
  assumes "0 \<le> dj" "dj < r"
  shows "0 \<le> (r - dj) / r \<and> (r - dj) / r \<le> (1::real)"
proof -
  from assms have r: "0 < r" by linarith
  then show ?thesis using assms by (simp add: field_simps)
qed

lemma jamInterference_inside:
  assumes "jamZone s = Some jz" "computeDistance (position s) (center jz) < radius jz"
  shows "altitude (jamInterference rnd s) =
           altitude s + (rJamAltitude rnd - 0.5) * 2.0 *
             (1.5 * exp ((radius jz - computeDistance (position s) (center jz)) / radius jz) - 1)"
    and "crashed (jamInterference rnd s) =
           (computeDistance (position s) (center jz) < 0.1 * radius jz \<or> crashed s)"
    and "flightStarted (jamInterference rnd s) =
           (\<not> computeDistance (position s) (center jz) < 0.1 * radius jz \<and> flightStarted s)"
    and "vx (jamInterference rnd s) =
           (if computeDistance (position s) (center jz) < 0.1 * radius jz then 0 else vx s)
           + (rJamVx rnd - 0.5) * 1.0 *
             (1.5 * exp ((radius jz - computeDistance (position s) (center jz)) / radius jz) - 1)"
    and "verticalSpeed (jamInterference rnd s) =
           (if computeDistance (position s) (center jz) < 0.1 * radius jz then - 5 else verticalSpeed s)
           + (rJamVerticalSpeed rnd - 0.5) * 1.0 *
             (1.5 * exp ((radius jz - computeDistance (position s) (center jz)) / radius jz) - 1)"
  using assms by (simp_all add: jamInterference_def Let_def)

lemma jamInterference_crash:
  assumes jz: "jamZone s = Some jz"
    and near: "computeDistance (position s) (center jz) < 0.1 * radius jz"
    and r: "rJamVerticalSpeed rnd < 1"
  shows "crashed (jamInterference rnd s) \<and> \<not> flightStarted (jamInterference rnd s)
         \<and> verticalSpeed (jamInterference rnd s) < - 3"
proof -
  define dj where "dj = computeDistance (position s) (center jz)"
  have d0: "0 \<le> dj" unfolding dj_def by (rule computeDistance_nonneg)
  with near have rpos: "0 < radius jz" by (simp add: dj_def)
  with near have inside: "dj < radius jz" by (simp add: dj_def)
  define f where "f = 1.5 * exp ((radius jz - dj) / radius jz) - 1"
  have f: "1 / 2 \<le> f" "f \<le> 7 / 2"
    using expFactor_bounds [of "(radius jz - dj) / radius jz"] jam_ratio [OF d0 inside]
    by (simp_all add: f_def)
  have "(rJamVerticalSpeed rnd - 0.5) * f \<le> (1 / 2) * f"
    using r f(1) by (intro mult_right_mono) simp_all
  also have "\<dots> \<le> 7 / 4" using f(2) by simp
  finally have p: "(rJamVerticalSpeed rnd - 0.5) * f \<le> 7 / 4" .
  have vs: "verticalSpeed (jamInterference rnd s) = - 5 + (rJamVerticalSpeed rnd - 0.5) * 1.0 * f"
    using jamInterference_inside(5) [OF jz inside [unfolded dj_def], of rnd] near
    by (simp add: f_def dj_def)
  have "verticalSpeed (jamInterference rnd s) < - 3" using p by (simp add: vs)
  then show ?thesis
    using jamInterference_inside(2,3) [OF jz inside [unfolded dj_def], of rnd] near by simp
qed

lemma tick_result:
  "\<not> crashed s \<Longrightarrow> flightDynamics dt rnd s = Inr (va, s1) \<Longrightarrow>
     updateFlightPhysics dt rnd s = Inr (odometer dt (position s) (powerModel dt va s1))"
  by (simp add: updateFlightPhysics_def)

lemma flightDynamics_result:
  "horizontalMovement dt s = Inr s1 \<Longrightarrow> verticalControl dt rnd (flightModes s1) = Inr (va, s2) \<Longrightarrow>
     flightDynamics dt rnd s = Inr (va, jamInterference rnd s2)"
  by (simp add: flightDynamics_def)

lemma verticalControl_total:
  "dt \<noteq> 0 \<Longrightarrow> \<exists>va s1. verticalControl dt rnd s = Inr (va, s1)"
  by (simp add: verticalControl_def Let_def)

lemma verticalControl_frame2:
  "verticalControl dt rnd s = Inr (va, s1) \<Longrightarrow> vx s1 = vx s"
  by (auto simp: verticalControl_def Let_def split: if_splits)

lemma tick_stages:
  assumes "\<not> crashed s" "dt \<noteq> 0" and hm: "horizontalMovement dt s = Inr s1"
  shows "\<exists>va s2. verticalControl dt rnd (flightModes s1) = Inr (va, s2)
           \<and> updateFlightPhysics dt rnd s
               = Inr (odometer dt (position s) (powerModel dt va (jamInterference rnd s2)))
           \<and> position s2 = position s1 \<and> jamZone s2 = jamZone s
           \<and> crashed s2 = crashed (flightModes s1) \<and> vx s2 = vx (flightModes s1)"
proof -
  from verticalControl_total [OF assms(2)] obtain va s2
    where vc: "verticalControl dt rnd (flightModes s1) = Inr (va, s2)" by blast
  have "updateFlightPhysics dt rnd s
               = Inr (odometer dt (position s) (powerModel dt va (jamInterference rnd s2)))"
    using tick_result [OF assms(1) flightDynamics_result [OF hm vc]] .
  moreover have "position s2 = position s1 \<and> jamZone s2 = jamZone s \<and> crashed s2 = crashed (flightModes s1)"
    using verticalControl_frame [OF vc] flightModes_frame [of s1] horizontalMovement_frame [OF hm]
    by simp
  moreover have "vx s2 = vx (flightModes s1)" using verticalControl_frame2 [OF vc] .
  ultimately show ?thesis using vc by blast
qed

lemma horizontalMovement_idle:
  "\<not> flightStarted s \<Longrightarrow> horizontalMovement dt s = Inr s"
  by (simp add: horizontalMovement_def)

lemma cos_degrees_nonzero: "\<bar>x\<bar> < 90 \<Longrightarrow> cos (x * pi / 180) \<noteq> 0"
proof -
  assume "\<bar>x\<bar> < 90"
  then have x: "- 90 < x" "x < 90" by (simp_all add: abs_less_iff)
  have "(- 90) * pi < x * pi" "x * pi < 90 * pi"
    using x pi_gt_zero by (simp_all only: mult_strict_right_mono)
  then have "- (pi / 2) < x * pi / 180" "x * pi / 180 < pi / 2" by simp_all
  then have "0 < cos (x * pi / 180)" by (rule cos_gt_zero_pi)
  then show ?thesis by simp
qed

lemma jammed_tick:
  "\<not> isl (updateFlightPhysics 0.1 zeroDraws jammedState)
   \<and> crashed (projr (updateFlightPhysics 0.1 zeroDraws jammedState))
   \<and> vx (projr (updateFlightPhysics 0.1 zeroDraws jammedState)) < 0"
proof -
  have a: "\<not> crashed jammedState" "jamZone jammedState = Some centreJam" "\<not> flightStarted jammedState"
    by (simp_all add: jammedState_def setJamZone_def initialState_def)
  have hm: "horizontalMovement 0.1 jammedState = Inr jammedState"
    using a(3) by (rule horizontalMovement_idle)
  from tick_stages [OF a(1) _ hm, of zeroDraws] obtain va s2 where
    t: "updateFlightPhysics 0.1 zeroDraws jammedState
          = Inr (odometer 0.1 (position jammedState) (powerModel 0.1 va (jamInterference zeroDraws s2)))"
    and p: "position s2 = position jammedState" "jamZone s2 = jamZone jammedState"
    and v: "vx s2 = vx (flightModes jammedState)"
    by auto
  have jz: "jamZone s2 = Some centreJam" using p(2) a(2) by simp
  have cen: "center centreJam = position s2" by (simp add: p(1) jammedState_def setJamZone_def centreJam_def)
  have rad: "radius centreJam = 100" by (simp add: centreJam_def)
  have d: "computeDistance (position s2) (center centreJam) = 0"
    unfolding cen by (rule computeDistance_same)
  have inside: "computeDistance (position s2) (center centreJam) < radius centreJam"
    unfolding d rad by simp
  have f: "1 / 2 \<le> 1.5 * exp 1 - (1::real)" using expFactor_bounds [of 1] by simp
  have c: "crashed (jamInterference zeroDraws s2)"
    using jamInterference_inside(2) [OF jz inside, of zeroDraws] unfolding d rad by simp
  have "vx (jamInterference zeroDraws s2) = - (1 / 2) * (1.5 * exp 1 - 1)"
    using jamInterference_inside(4) [OF jz inside, of zeroDraws] unfolding d rad
    by (simp add: zeroDraws_def)
  moreover have "(2::real) \<le> exp 1" using exp_ge_add_one_self [of 1] by simp
  ultimately have x: "vx (jamInterference zeroDraws s2) < 0" by simp
  show ?thesis using c x by (simp add: t odometer_frame powerModel_frame)
qed

lemma atan2_north: "0 < y \<Longrightarrow> atan2 y 0 = pi / 2"
  by (simp add: atan2_def)

lemma overfly_move:
  "horizontalMovement 0.1 overflyState
     = Inr (overflyState\<lparr> vx := 0, vy := 50 / 3.6, position := \<lparr> lat = 5 / 400752, lng = 0 \<rparr> \<rparr>)"
proof -
  have c: "cos (5 / 400752 * pi / 180) \<noteq> 0" by (rule cos_degrees_nonzero) simp
  have b: "atan2 (lat wpN - lat wpA) (lng wpN - lng wpA) = pi / 2"
    by (simp add: wpN_def wpA_def atan2_north)
  have s: "steer 0.1 0 (50 / 3.6) overflyState
     = Inr (overflyState\<lparr> vx := 0, vy := 50 / 3.6, position := \<lparr> lat = 5 / 400752, lng = 0 \<rparr> \<rparr>)"
    using c
    by (simp add: steer_def Let_def overflyState_def initialState_def wpA_def maxAcceleration_def)
  have tw: "deref (position overflyState) (last (route overflyState)) = wpN"
    and pos: "position overflyState = wpA"
    and hs: "horizontalSpeed overflyState = 50 / 3.6"
    by (simp_all add: overflyState_def initialState_def)
  have "landingApproach 0.1 overflyState = steer 0.1 0 (50 / 3.6) overflyState"
    unfolding landingApproach_def Let_def
    unfolding tw
    unfolding pos b hs
    by simp
  with s show ?thesis
    by (simp add: horizontalMovement_def overflyState_def initialState_def)
qed

lemma overfly_tick:
  "\<not> crashed overflyState \<and> jamZone overflyState = Some smallJam
   \<and> computeDistance (position overflyState) (center smallJam) < 0.1 * radius smallJam
   \<and> \<not> isl (updateFlightPhysics 0.1 halfDraws overflyState)
   \<and> \<not> crashed (projr (updateFlightPhysics 0.1 halfDraws overflyState))"
proof -
  define s1 where "s1 = overflyState\<lparr> vx := 0, vy := 50 / 3.6, position := \<lparr> lat = 5 / 400752, lng = 0 \<rparr> \<rparr>"
  have a: "\<not> crashed overflyState" "jamZone overflyState = Some smallJam"
    by (simp_all add: overflyState_def initialState_def)
  have pre: "computeDistance (position overflyState) (center smallJam) < 0.1 * radius smallJam"
    by (simp add: overflyState_def smallJam_def computeDistance_same)
  have hm: "horizontalMovement 0.1 overflyState = Inr s1" unfolding s1_def by (rule overfly_move)
  from tick_stages [OF a(1) _ hm, of halfDraws] obtain va s2 where
    t: "updateFlightPhysics 0.1 halfDraws overflyState
          = Inr (odometer 0.1 (position overflyState) (powerModel 0.1 va (jamInterference halfDraws s2)))"
    and p: "position s2 = position s1" "jamZone s2 = jamZone overflyState"
    and c2: "crashed s2 = crashed (flightModes s1)"
    by auto
  have jz: "jamZone s2 = Some smallJam" using p(2) a(2) by simp
  have nc: "\<not> crashed s2"
    by (simp add: c2 s1_def flightModes_def overflyState_def initialState_def Let_def)
  have cen: "center smallJam = wpA" and rad: "radius smallJam = 8" by (simp_all add: smallJam_def)
  have "computeDistance (position s1) wpA = 6371000 * (\<bar>lat wpA - lat (position s1)\<bar> * pi / 180)"
    by (rule computeDistance_meridian) (simp_all add: s1_def wpA_def)
  also have "\<bar>lat wpA - lat (position s1)\<bar> = 5 / 400752" by (simp add: s1_def wpA_def)
  finally have d: "computeDistance (position s2) (center smallJam) = 6371000 * (5 / 400752 * pi / 180)"
    unfolding cen p(1) .
  have far: "\<not> computeDistance (position s2) (center smallJam) < 0.1 * radius smallJam"
    unfolding d rad using pi_ge_two by simp
  have inside: "computeDistance (position s2) (center smallJam) < radius smallJam"
    unfolding d rad using pi_less_4 by simp
  have "\<not> crashed (jamInterference halfDraws s2)"
    using jamInterference_inside(2) [OF jz inside, of halfDraws] far nc by simp
  then show ?thesis using a pre by (simp add: t odometer_frame powerModel_frame)
qed

text \<open>
  C2, as stated, fails twice. A vehicle that is within a tenth of the radius of the
  centre before the tick and flies out of that circle during the tick does not crash;
  and after the crash of a vehicle at rest the horizontal velocity is not zero.
\<close>

theorem jam_crash_counterexample:
  "(\<not> crashed overflyState \<and> jamZone overflyState = Some smallJam
    \<and> computeDistance (position overflyState) (center smallJam) < 0.1 * radius smallJam
    \<and> \<not> isl (updateFlightPhysics 0.1 halfDraws overflyState)
    \<and> \<not> crashed (projr (updateFlightPhysics 0.1 halfDraws overflyState)))
   \<and> (reachable jammedState \<and> \<not> crashed jammedState \<and> jamZone jammedState = Some centreJam
    \<and> computeDistance (position jammedState) (center centreJam) < 0.1 * radius centreJam
    \<and> \<not> isl (updateFlightPhysics 0.1 zeroDraws jammedState)
    \<and> crashed (projr (updateFlightPhysics 0.1 zeroDraws jammedState))
    \<and> vx (projr (updateFlightPhysics 0.1 zeroDraws jammedState)) \<noteq> 0)"
proof -
  have re: "reachable jammedState"
    unfolding jammedState_def by (intro reachable.command reachable.initial)
  have "\<not> crashed jammedState \<and> jamZone jammedState = Some centreJam
    \<and> computeDistance (position jammedState) (center centreJam) < 0.1 * radius centreJam"
    by (simp add: jammedState_def setJamZone_def initialState_def centreJam_def computeDistance_same)
  then show ?thesis using re overfly_tick jammed_tick by simp
qed

text \<open>
  C2, amended. A vehicle that has not crashed, with a jam zone, whose position after the
  horizontal movement of the tick is closer to the centre of the zone than a tenth of
  its radius: for all random draws in \<open>[0, 1)\<close> the tick returns a state that has
  crashed, is not in flight, and has a vertical speed below -3 m/s.
\<close>

theorem jam_crash:
  assumes "\<not> crashed s" "jamZone s = Some jz" "dt \<noteq> 0" "unitDraws rnd"
    and hm: "horizontalMovement dt s = Inr s1"
    and near: "computeDistance (position s1) (center jz) < 0.1 * radius jz"
  shows "\<exists>s'. updateFlightPhysics dt rnd s = Inr s'
           \<and> crashed s' \<and> \<not> flightStarted s' \<and> verticalSpeed s' < - 3"
proof -
  from verticalControl_total [OF assms(3)] obtain va s2
    where vc: "verticalControl dt rnd (flightModes s1) = Inr (va, s2)" by blast
  have jz2: "jamZone s2 = Some jz"
    using verticalControl_frame [OF vc] flightModes_frame [of s1] horizontalMovement_frame [OF hm] assms(2)
    by simp
  have pos2: "position s2 = position s1"
    using verticalControl_frame [OF vc] flightModes_frame [of s1] by simp
  have r: "rJamVerticalSpeed rnd < 1" using assms(4) by (simp add: unitDraws_def)
  from near have near2: "computeDistance (position s2) (center jz) < 0.1 * radius jz"
    by (simp add: pos2)
  note j = jamInterference_crash [OF jz2 near2 r]
  let ?s' = "odometer dt (position s) (powerModel dt va (jamInterference rnd s2))"
  have "updateFlightPhysics dt rnd s = Inr ?s'"
    using tick_result [OF assms(1) flightDynamics_result [OF hm vc]] .
  moreover have "crashed ?s' \<and> \<not> flightStarted ?s' \<and> verticalSpeed ?s' < - 3"
    using j by (simp add: odometer_frame powerModel_frame)
  ultimately show ?thesis by blast
qed

theorem jam_crash_witness:
  "\<not> crashed jammedState \<and> jamZone jammedState = Some centreJam \<and> (0.1::real) \<noteq> 0
   \<and> unitDraws halfDraws \<and> horizontalMovement 0.1 jammedState = Inr jammedState
   \<and> computeDistance (position jammedState) (center centreJam) < 0.1 * radius centreJam
   \<and> \<not> isl (updateFlightPhysics 0.1 halfDraws jammedState)
   \<and> crashed (projr (updateFlightPhysics 0.1 halfDraws jammedState))
   \<and> \<not> flightStarted (projr (updateFlightPhysics 0.1 halfDraws jammedState))
   \<and> verticalSpeed (projr (updateFlightPhysics 0.1 halfDraws jammedState)) < - 3"
proof -
  have a: "\<not> crashed jammedState" "jamZone jammedState = Some centreJam" "\<not> flightStarted jammedState"
    by (simp_all add: jammedState_def setJamZone_def initialState_def)
  have dt: "(0.1::real) \<noteq> 0" by simp
  have u: "unitDraws halfDraws" by (simp add: unitDraws_def halfDraws_def)
  have hm: "horizontalMovement 0.1 jammedState = Inr jammedState"
    using a(3) by (rule horizontalMovement_idle)
  have near: "computeDistance (position jammedState) (center centreJam) < 0.1 * radius centreJam"
    by (simp add: jammedState_def setJamZone_def centreJam_def computeDistance_same)
  from jam_crash [OF a(1,2) dt u hm near] obtain s'
    where "updateFlightPhysics 0.1 halfDraws jammedState = Inr s'" 
      "crashed s'" "\<not> flightStarted s'" "verticalSpeed s' < - 3" by blast
  then show ?thesis using a(1,2) dt u hm near by simp
qed

subsection \<open>Altitude floor\<close>

lemma verticalControl_floor:
  "verticalControl dt rnd s = Inr (va, s1) \<Longrightarrow> 0 \<le> altitude s1"
  by (auto simp: verticalControl_def Let_def split: if_splits)

lemma tick_altitude_without_jam:
  assumes "\<not> crashed s" "jamZone s = None" "updateFlightPhysics dt rnd s = Inr s'"
  shows "0 \<le> altitude s'"
proof -
  from assms(1,3) obtain va s3 where fd: "flightDynamics dt rnd s = Inr (va, s3)"
    and s': "s' = odometer dt (position s) (powerModel dt va s3)"
    by (auto simp: updateFlightPhysics_def Let_def split: sum.splits)
  from fd obtain s1 s2 where hm: "horizontalMovement dt s = Inr s1"
    and vc: "verticalControl dt rnd (flightModes s1) = Inr (va, s2)"
    and s3: "s3 = jamInterference rnd s2"
    by (auto simp: flightDynamics_def split: sum.splits prod.splits)
  have "jamZone s2 = None"
    using verticalControl_frame [OF vc] flightModes_frame [of s1] horizontalMovement_frame [OF hm]
      assms(2) by simp
  then have "altitude s3 = altitude s2" by (simp add: s3 jamInterference_def)
  with verticalControl_floor [OF vc] show ?thesis by (simp add: s' odometer_frame powerModel_frame)
qed

lemma distance_to_wideJam:
  "computeDistance (position initialState) (center wideJam) = 6371000 * (0.001 * pi / 180)"
  using computeDistance_meridian [of "position initialState" "center wideJam"]
  by (simp add: initialState_def wideJam_def)

text \<open>
  C3. The altitude floor does not hold inside a jam zone: in the initial state with a
  jam zone of 200 m whose centre is 111 m away, the vehicle is on the ground at altitude
  0; after one tick its altitude is negative, and it has not crashed.
\<close>

theorem altitude_negative_in_jam_zone:
  "reachable groundedInJam \<and> 0 \<le> altitude groundedInJam \<and> \<not> crashed groundedInJam
   \<and> \<not> isl (updateFlightPhysics 0.1 zeroDraws groundedInJam)
   \<and> altitude (projr (updateFlightPhysics 0.1 zeroDraws groundedInJam)) < 0
   \<and> \<not> crashed (projr (updateFlightPhysics 0.1 zeroDraws groundedInJam))"
proof -
  have re: "reachable groundedInJam"
    unfolding groundedInJam_def by (intro reachable.command reachable.initial)
  have a: "\<not> crashed groundedInJam" "jamZone groundedInJam = Some wideJam"
    "\<not> flightStarted groundedInJam" "0 \<le> altitude groundedInJam"
    "position groundedInJam = position initialState"
    by (simp_all add: groundedInJam_def setJamZone_def initialState_def)
  have hm: "horizontalMovement 0.1 groundedInJam = Inr groundedInJam"
    using a(3) by (rule horizontalMovement_idle)
  from tick_stages [OF a(1) _ hm, of zeroDraws] obtain va s2 where
    vc: "verticalControl 0.1 zeroDraws (flightModes groundedInJam) = Inr (va, s2)"
    and t: "updateFlightPhysics 0.1 zeroDraws groundedInJam
          = Inr (odometer 0.1 (position groundedInJam) (powerModel 0.1 va (jamInterference zeroDraws s2)))"
    and p: "position s2 = position groundedInJam" "jamZone s2 = jamZone groundedInJam"
    and c2: "crashed s2 = crashed (flightModes groundedInJam)"
    by auto
  have jz: "jamZone s2 = Some wideJam" using p(2) a(2) by simp
  have nc: "\<not> crashed s2"
    by (simp add: c2 flightModes_def groundedInJam_def setJamZone_def initialState_def)
  have alt: "altitude s2 = 0"
    using vc
    by (auto simp: verticalControl_def flightModes_def groundedInJam_def setJamZone_def
          initialState_def zeroDraws_def Let_def clamp_def maxIntegral_def Kp_alt_def Ki_alt_def
          Kd_alt_def split: if_splits)
  have rad: "radius wideJam = 200" by (simp add: wideJam_def)
  have pos: "position s2 = position initialState" using p(1) a(5) by simp
  have d: "computeDistance (position s2) (center wideJam) = 6371000 * (0.001 * pi / 180)"
    unfolding pos by (rule distance_to_wideJam)
  have inside: "computeDistance (position s2) (center wideJam) < radius wideJam"
    unfolding d rad using pi_less_4 by simp
  have far: "\<not> computeDistance (position s2) (center wideJam) < 0.1 * radius wideJam"
    unfolding d rad using pi_ge_two by simp
  have ratio: "0 \<le> (radius wideJam - computeDistance (position s2) (center wideJam)) / radius wideJam"
    using jam_ratio [OF computeDistance_nonneg inside] by simp
  define E where
    "E = exp ((radius wideJam - computeDistance (position s2) (center wideJam)) / radius wideJam)"
  have f: "1 \<le> E" unfolding E_def using ratio by (simp only: one_le_exp_iff)
  have "altitude (jamInterference zeroDraws s2)
          = altitude s2 + (rJamAltitude zeroDraws - 0.5) * 2.0 * (1.5 * E - 1)"
    unfolding E_def by (rule jamInterference_inside(1) [OF jz inside])
  then have "altitude (jamInterference zeroDraws s2) < 0"
    using f by (simp add: alt zeroDraws_def)
  moreover have "\<not> crashed (jamInterference zeroDraws s2)"
    using jamInterference_inside(2) [OF jz inside, of zeroDraws] far nc by simp
  ultimately show ?thesis using re a(1,4) by (simp add: t odometer_frame powerModel_frame)
qed

subsection \<open>The crashed state\<close>

lemma frames_route:
  "route (flightModes s) = route s"
  "route (jamInterference rnd s) = route s"
  "route (powerModel dt va s) = route s"
  "route (odometer dt p s) = route s"
  by (simp_all add: flightModes_def jamInterference_def powerModel_def odometer_def Let_def
        split: option.splits)

lemma verticalControl_route:
  "verticalControl dt rnd s = Inr (va, s1) \<Longrightarrow> route s1 = route s"
  by (auto simp: verticalControl_def Let_def split: if_splits)

lemma filterRoute_wpA_wpB: "filterRoute (deref p) [Obj wpA, Obj wpB] = [Obj wpA, Obj wpB]"
proof -
  have "5 < computeDistance wpB wpA"
    using distance_wpA_wpB_bounds computeDistance_sym [of wpB wpA] by simp
  then show ?thesis by (simp add: filterRoute_def)
qed

lemma reachable_jammedState: "reachable jammedState"
  unfolding jammedState_def by (intro reachable.command reachable.initial)

lemma reachable_routedJammedState: "reachable routedJammedState"
  unfolding routedJammedState_def by (intro reachable.command reachable_jammedState)

lemma crashedInJam_facts:
  "updateFlightPhysics 0.1 halfDraws routedJammedState = Inr crashedInJam"
  "crashed crashedInJam" "\<not> flightStarted crashedInJam" "route crashedInJam = [Obj wpA, Obj wpB]"
proof -
  have a: "\<not> crashed routedJammedState" "jamZone routedJammedState = Some centreJam"
    "\<not> flightStarted routedJammedState" "position routedJammedState = position initialState"
    "route routedJammedState = [Obj wpA, Obj wpB]"
    by (simp_all add: routedJammedState_def jammedState_def setRoute_def setJamZone_def
          initialState_def filterRoute_wpA_wpB)
  have hm: "horizontalMovement 0.1 routedJammedState = Inr routedJammedState"
    using a(3) by (rule horizontalMovement_idle)
  from tick_stages [OF a(1) _ hm, of halfDraws] obtain va s2 where
    vc: "verticalControl 0.1 halfDraws (flightModes routedJammedState) = Inr (va, s2)"
    and t: "updateFlightPhysics 0.1 halfDraws routedJammedState
          = Inr (odometer 0.1 (position routedJammedState) (powerModel 0.1 va (jamInterference halfDraws s2)))"
    and p: "position s2 = position routedJammedState" "jamZone s2 = jamZone routedJammedState"
    by auto
  have jz: "jamZone s2 = Some centreJam" using p(2) a(2) by simp
  have cen: "center centreJam = position s2" by (simp add: p(1) a(4) centreJam_def)
  have rad: "radius centreJam = 100" by (simp add: centreJam_def)
  have near: "computeDistance (position s2) (center centreJam) < 0.1 * radius centreJam"
    unfolding cen rad by (simp add: computeDistance_same)
  have r: "rJamVerticalSpeed halfDraws < 1" by (simp add: halfDraws_def)
  note j = jamInterference_crash [OF jz near r]
  have e: "crashedInJam = odometer 0.1 (position routedJammedState) (powerModel 0.1 va (jamInterference halfDraws s2))"
    by (simp add: crashedInJam_def t)
  show "updateFlightPhysics 0.1 halfDraws routedJammedState = Inr crashedInJam" by (simp add: e t)
  show "crashed crashedInJam" "\<not> flightStarted crashedInJam"
    using j by (simp_all add: e odometer_frame powerModel_frame)
  show "route crashedInJam = [Obj wpA, Obj wpB]"
    using verticalControl_route [OF vc] by (simp add: e frames_route a(5))
qed

lemma reachable_crashedInJam: "reachable crashedInJam"
proof -
  have "unitDraws halfDraws" by (simp add: unitDraws_def halfDraws_def)
  from reachable.tick [OF reachable_routedJammedState this crashedInJam_facts(1)]
  show ?thesis .
qed

text \<open>
  C7, as stated, fails: the vehicle that has crashed at the centre of a jam zone is not
  in flight, and a start command clears its crashed flag.
\<close>

theorem crashed_frozen_counterexample:
  "reachable crashedInJam \<and> crashed crashedInJam \<and> \<not> crashed (exec StartFlight crashedInJam)"
  using reachable_crashedInJam crashedInJam_facts(2,3,4)
  by (simp add: startFlight_def Let_def)

text \<open>
  C7, amended. In a crashed state the tick leaves every field unchanged, and no command
  other than the start command and the reset handler clears the crashed flag.
\<close>

theorem crashed_frozen:
  "crashed s \<Longrightarrow>
     updateFlightPhysics dt rnd s = Inr s
     \<and> (crashed (exec c s) \<or> c = StartFlight \<or> (\<exists>sl. c = Reset sl))"
proof -
  assume c: "crashed s"
  have "crashed (exec c s) \<or> c = StartFlight \<or> (\<exists>sl. c = Reset sl)"
    using c
    by (cases c)
       (simp_all add: stopFlight_def setRoute_def setHome_def takeOff_def land_def hover_def
          updateParameters_def updateWind_def setJamZone_def clearJamZone_def setRepeat_def
          north_def south_def east_def west_def altUp_def altDown_def Let_def split: option.splits)
  with c show ?thesis by (simp add: updateFlightPhysics_def)
qed

theorem crashed_frozen_witness:
  "crashed crashedInJam \<and> updateFlightPhysics 0.1 halfDraws crashedInJam = Inr crashedInJam
   \<and> crashed (exec Land crashedInJam)"
proof -
  have c: "crashed crashedInJam" by (rule crashedInJam_facts(2))
  from crashed_frozen [OF c, of "0.1" halfDraws Land] c show ?thesis by simp
qed

subsection \<open>Home position\<close>

lemma tick_homePosition:
  "updateFlightPhysics dt rnd s = Inr s' \<Longrightarrow> homePosition s' = homePosition s"
proof (cases "crashed s")
  case True
  assume "updateFlightPhysics dt rnd s = Inr s'"
  with True show ?thesis by (simp add: updateFlightPhysics_def)
next
  case False
  assume "updateFlightPhysics dt rnd s = Inr s'"
  with False obtain va s1 where fd: "flightDynamics dt rnd s = Inr (va, s1)"
    and s': "s' = odometer dt (position s) (powerModel dt va s1)"
    by (auto simp: updateFlightPhysics_def Let_def split: sum.splits)
  show ?thesis using flightDynamics_frame [OF fd] by (simp add: s' odometer_frame powerModel_frame)
qed

text \<open>
  C8, as stated, fails: the set-home command replaces a home position that is set.
\<close>

theorem homePosition_kept_counterexample:
  "reachable movedHomeState \<and> homePosition movedHomeState \<noteq> None
   \<and> homePosition (exec SetHome movedHomeState) \<noteq> homePosition movedHomeState"
proof -
  have "reachable movedHomeState"
    unfolding movedHomeState_def by (intro reachable.command reachable.initial)
  then show ?thesis
    by (simp add: movedHomeState_def setHome_def north_def initialState_def)
qed

text \<open>
  C8, amended. Once the home position is set, no command other than the set-home command
  and the reset handler changes it, and no tick changes it.
\<close>

theorem homePosition_kept:
  "homePosition s \<noteq> None \<Longrightarrow>
     (homePosition (exec c s) = homePosition s \<or> c = SetHome \<or> (\<exists>sl. c = Reset sl))
     \<and> (updateFlightPhysics dt rnd s = Inr s' \<longrightarrow> homePosition s' = homePosition s)"
proof -
  assume "homePosition s \<noteq> None"
  then have "homePosition (exec c s) = homePosition s \<or> c = SetHome \<or> (\<exists>sl. c = Reset sl)"
    by (cases c)
       (auto simp add: startFlight_def stopFlight_def setRoute_def takeOff_def land_def hover_def
          updateParameters_def updateWind_def setJamZone_def clearJamZone_def setRepeat_def
          north_def south_def east_def west_def altUp_def altDown_def Let_def split: option.splits)
  then show ?thesis using tick_homePosition [of dt rnd s s'] by blast
qed

theorem homePosition_kept_witness:
  "homePosition movedHomeState \<noteq> None
   \<and> homePosition (exec StartFlight movedHomeState) = homePosition movedHomeState
   \<and> homePosition (exec (SetRoute [Obj wpB, Obj wpA]) movedHomeState) = homePosition movedHomeState
   \<and> \<not> isl (updateFlightPhysics 0.1 halfDraws movedHomeState)
   \<and> homePosition (projr (updateFlightPhysics 0.1 halfDraws movedHomeState))
       = Some (position initialState)"
proof -
  have h: "homePosition movedHomeState \<noteq> None"
    "homePosition movedHomeState = Some (position initialState)"
    by (simp_all add: movedHomeState_def setHome_def north_def)
  have a: "\<not> crashed movedHomeState" "\<not> flightStarted movedHomeState"
    by (simp_all add: movedHomeState_def setHome_def north_def initialState_def)
  have r: "\<not> isl (updateFlightPhysics 0.1 halfDraws movedHomeState)"
    using a by (intro tick_grounded) simp_all
  then have e: "updateFlightPhysics 0.1 halfDraws movedHomeState
                  = Inr (projr (updateFlightPhysics 0.1 halfDraws movedHomeState))"
    by (cases "updateFlightPhysics 0.1 halfDraws movedHomeState") simp_all
  have c1: "homePosition (exec StartFlight movedHomeState) = homePosition movedHomeState"
    using homePosition_kept [OF h(1), of StartFlight] by simp
  have c2: "homePosition (exec (SetRoute [Obj wpB, Obj wpA]) movedHomeState)
              = homePosition movedHomeState"
    using homePosition_kept [OF h(1), of "SetRoute [Obj wpB, Obj wpA]"] by simp
  have t: "homePosition (projr (updateFlightPhysics 0.1 halfDraws movedHomeState))
             = Some (position initialState)"
    using homePosition_kept [OF h(1), of _ "0.1" halfDraws] e h(2) by simp
  show ?thesis using h(1) c1 c2 r t by simp
qed

end
